theory Spec2Isabelle
  imports Main "HOL-Library.Sublist"
begin

section \<open>Python values, strings and exceptions\<close>

text \<open>
  The route layer of \<^verbatim>\<open>src/api/main.py\<close> is embedded as functions over an explicit state.
  A Python \<^verbatim>\<open>str\<close> is a \<^typ>\<open>string\<close> whose characters are the code points below 256.
  The values that cross the HTTP boundary (request bodies, collaborator results, response
  bodies, the \<^verbatim>\<open>detail\<close> of an \<^verbatim>\<open>HTTPException\<close>) are JSON-like Python values.
\<close>

datatype pyval =
    PNone
  | PBool bool
  | PInt int
  | PStr string
  | PList "pyval list"
  | PDict "(string \<times> pyval) list"

type_synonym dict = "(string \<times> pyval) list"

text \<open>
  An exception, as the route layer can tell exceptions apart: a \<^verbatim>\<open>fastapi.HTTPException\<close> with
  its \<^verbatim>\<open>status_code\<close> and \<^verbatim>\<open>detail\<close>, or any other instance of \<^verbatim>\<open>Exception\<close>, given by
  \<^verbatim>\<open>str(e)\<close>. Exceptions outside the \<^verbatim>\<open>Exception\<close> hierarchy (\<^verbatim>\<open>SystemExit\<close>,
  \<^verbatim>\<open>KeyboardInterrupt\<close>) are not modelled.
\<close>

datatype exn =
    HTTPException nat pyval
  | Exception string

subsection \<open>\<^verbatim>\<open>str\<close> and \<^verbatim>\<open>repr\<close>\<close>

definition digit_char :: "nat \<Rightarrow> char" where
  "digit_char d = char_of (48 + d)"

fun str_nat :: "nat \<Rightarrow> string" where
  "str_nat n = (if n < 10 then [digit_char n] else str_nat (n div 10) @ [digit_char (n mod 10)])"

definition str_int :: "int \<Rightarrow> string" where
  "str_int i = (if i < 0 then CHR ''-'' # str_nat (nat (- i)) else str_nat (nat i))"

definition hex_char :: "nat \<Rightarrow> char" where
  "hex_char d = (if d < 10 then char_of (48 + d) else char_of (87 + d))"

definition printable :: "char \<Rightarrow> bool" where
  \<comment> \<open>\<^verbatim>\<open>str.isprintable\<close> on the code points below 256\<close>
  "printable c = (let n = (of_char c :: nat) in
     (32 \<le> n \<and> n < 127) \<or> (161 \<le> n \<and> n \<noteq> 173))"

definition repr_char :: "char \<Rightarrow> char \<Rightarrow> string" where
  "repr_char quote c =
     (if c = quote \<or> c = CHR 0x5C then [CHR 0x5C, c]
      else if c = CHR 0x09 then [CHR 0x5C, CHR ''t'']
      else if c = CHR 0x0A then [CHR 0x5C, CHR ''n'']
      else if c = CHR 0x0D then [CHR 0x5C, CHR ''r'']
      else if printable c then [c]
      else [CHR 0x5C, CHR ''x'', hex_char (of_char c div 16), hex_char (of_char c mod 16)])"

definition repr_str :: "string \<Rightarrow> string" where
  \<comment> \<open>\<^verbatim>\<open>repr\<close> of a \<^verbatim>\<open>str\<close>: double quotes only when the string has a single quote and no
      double quote\<close>
  "repr_str s =
     (let quote = (if CHR 0x27 \<in> set s \<and> CHR 0x22 \<notin> set s then CHR 0x22 else CHR 0x27)
      in quote # concat (map (repr_char quote) s) @ [quote])"

fun join_with :: "string \<Rightarrow> string list \<Rightarrow> string" where
  "join_with sep [] = []"
| "join_with sep [x] = x"
| "join_with sep (x # y # ys) = x @ sep @ join_with sep (y # ys)"

fun py_repr :: "pyval \<Rightarrow> string" where
  "py_repr PNone = ''None''"
| "py_repr (PBool b) = (if b then ''True'' else ''False'')"
| "py_repr (PInt i) = str_int i"
| "py_repr (PStr s) = repr_str s"
| "py_repr (PList xs) = ''['' @ join_with '', '' (map py_repr xs) @ '']''"
| "py_repr (PDict kvs) =
     ''{'' @ join_with '', '' (map (\<lambda>kv. repr_str (fst kv) @ '': '' @ py_repr (snd kv)) kvs) @ ''}''"

definition py_str :: "pyval \<Rightarrow> string" where
  "py_str v = (case v of PStr s \<Rightarrow> s | _ \<Rightarrow> py_repr v)"

definition str_exn :: "exn \<Rightarrow> string" where
  \<comment> \<open>\<^verbatim>\<open>str(e)\<close>; for an \<^verbatim>\<open>HTTPException\<close> it is Starlette's
      \<^verbatim>\<open>f"{self.status_code}: {self.detail}"\<close>\<close>
  "str_exn e = (case e of
       Exception m \<Rightarrow> m
     | HTTPException code d \<Rightarrow> str_nat code @ '': '' @ py_str d)"

subsection \<open>\<^verbatim>\<open>str.lower\<close>, \<^verbatim>\<open>pathlib.Path(...).suffix\<close> and \<^verbatim>\<open>os.path.join\<close> (POSIX)\<close>

definition lower_char :: "char \<Rightarrow> char" where
  "lower_char c = (let n = (of_char c :: nat) in
     if (65 \<le> n \<and> n \<le> 90) \<or> (192 \<le> n \<and> n \<le> 222 \<and> n \<noteq> 215)
     then char_of (n + 32) else c)"

definition lower :: "string \<Rightarrow> string" where
  "lower s = map lower_char s"

fun split_sep :: "string \<Rightarrow> string list" where
  \<comment> \<open>\<^verbatim>\<open>s.split('/')\<close>\<close>
  "split_sep [] = [[]]"
| "split_sep (c # cs) =
     (if c = CHR ''/'' then [] # split_sep cs
      else (case split_sep cs of [] \<Rightarrow> [[c]] | x # xs \<Rightarrow> (c # x) # xs))"

definition path_name :: "string \<Rightarrow> string" where
  \<comment> \<open>\<^verbatim>\<open>PurePosixPath(s).name\<close>: the last component that is neither empty nor a single dot\<close>
  "path_name s =
     (case filter (\<lambda>x. x \<noteq> [] \<and> x \<noteq> ''.'') (split_sep s) of
        [] \<Rightarrow> []
      | p # ps \<Rightarrow> last (p # ps))"

definition rfind :: "char \<Rightarrow> string \<Rightarrow> nat option" where
  "rfind c s =
     (case filter (\<lambda>i. s ! i = c) (rev [0..<length s]) of
        [] \<Rightarrow> None
      | i # _ \<Rightarrow> Some i)"

definition path_suffix :: "string \<Rightarrow> string" where
  \<comment> \<open>\<^verbatim>\<open>Path(s).suffix\<close>: from the last dot of the name, unless that dot starts or ends the name\<close>
  "path_suffix s =
     (let name = path_name s in
      case rfind CHR ''.'' name of
        None \<Rightarrow> []
      | Some i \<Rightarrow> if 0 < i \<and> i + 1 < length name then drop i name else [])"

definition os_path_join :: "string \<Rightarrow> string \<Rightarrow> string" where
  "os_path_join a b =
     (if b \<noteq> [] \<and> hd b = CHR ''/'' then b
      else if a = [] \<or> last a = CHR ''/'' then a @ b
      else a @ ''/'' @ b)"

section \<open>The file system\<close>

text \<open>
  The file system, as the process sees it: a finite table from canonical absolute paths (the
  list of component names below the root) to nodes, and the working directory. The root is
  always a directory, and the first binding of a path in the table is the one that counts.
  Path strings are resolved as POSIX does, without symbolic links, permissions or resource
  limits.
\<close>

type_synonym path = "string list"

datatype node = File string | Dir

record filesys =
  nodes :: "(path \<times> node) list"
  cwd :: path

definition lookup :: "filesys \<Rightarrow> path \<Rightarrow> node option" where
  "lookup fsys p = (if p = [] then Some Dir else map_of (nodes fsys) p)"

datatype errno = ENOENT | ENOTDIR | EISDIR

definition os_error :: "errno \<Rightarrow> string \<Rightarrow> exn" where
  \<comment> \<open>the \<^verbatim>\<open>OSError\<close> subclass raised for a path, by its \<^verbatim>\<open>str\<close>\<close>
  "os_error e s = Exception
     ((case e of
         ENOENT \<Rightarrow> ''[Errno 2] No such file or directory: ''
       | ENOTDIR \<Rightarrow> ''[Errno 20] Not a directory: ''
       | EISDIR \<Rightarrow> ''[Errno 21] Is a directory: '') @ repr_str s)"

definition null_byte :: exn where
  \<comment> \<open>the \<^verbatim>\<open>ValueError\<close> of a path string with a NUL character\<close>
  "null_byte = Exception ''embedded null byte''"

fun walk :: "filesys \<Rightarrow> path \<Rightarrow> string list \<Rightarrow> errno + path" where
  \<comment> \<open>follow directory components from the directory \<open>cur\<close>\<close>
  "walk fsys cur [] = Inr cur"
| "walk fsys cur (c # cs) =
     (if c = [] \<or> c = ''.'' then walk fsys cur cs
      else if c = ''..'' then walk fsys (butlast cur) cs
      else (case lookup fsys (cur @ [c]) of
              None \<Rightarrow> Inl ENOENT
            | Some (File _) \<Rightarrow> Inl ENOTDIR
            | Some Dir \<Rightarrow> walk fsys (cur @ [c]) cs))"

definition resolve_parent :: "filesys \<Rightarrow> string \<Rightarrow> errno + path" where
  \<comment> \<open>the directory that holds the last component of the path string\<close>
  "resolve_parent fsys s =
     (if s = [] then Inl ENOENT
      else walk fsys (if hd s = CHR ''/'' then [] else cwd fsys) (butlast (split_sep s)))"

definition stat :: "filesys \<Rightarrow> string \<Rightarrow> errno + (path \<times> node)" where
  "stat fsys s =
     (case resolve_parent fsys s of
        Inl e \<Rightarrow> Inl e
      | Inr d \<Rightarrow>
          (let f = last (split_sep s) in
           if f = [] \<or> f = ''.'' then Inr (d, Dir)
           else if f = ''..'' then Inr (butlast d, Dir)
           else (case lookup fsys (d @ [f]) of
                   None \<Rightarrow> Inl ENOENT
                 | Some n \<Rightarrow> Inr (d @ [f], n))))"

definition os_path_exists :: "filesys \<Rightarrow> string \<Rightarrow> bool" where
  "os_path_exists fsys s =
     (if CHR 0x00 \<in> set s then False
      else (case stat fsys s of Inl _ \<Rightarrow> False | Inr _ \<Rightarrow> True))"

definition os_path_isfile :: "filesys \<Rightarrow> string \<Rightarrow> bool" where
  "os_path_isfile fsys s =
     (if CHR 0x00 \<in> set s then False
      else (case stat fsys s of Inr (_, File _) \<Rightarrow> True | _ \<Rightarrow> False))"

definition os_listdir :: "filesys \<Rightarrow> string \<Rightarrow> exn + string list" where
  "os_listdir fsys s =
     (if CHR 0x00 \<in> set s then Inl null_byte
      else (case stat fsys s of
              Inl e \<Rightarrow> Inl (os_error e s)
            | Inr (_, File _) \<Rightarrow> Inl (os_error ENOTDIR s)
            | Inr (d, Dir) \<Rightarrow>
                Inr (remdups (map last
                  (filter (\<lambda>q. q \<noteq> [] \<and> butlast q = d) (map fst (nodes fsys)))))))"

definition open_wb :: "filesys \<Rightarrow> string \<Rightarrow> string \<Rightarrow> exn + filesys" where
  \<comment> \<open>\<^verbatim>\<open>with open(s, "wb") as buffer: shutil.copyfileobj(src, buffer)\<close>: create or truncate the
      file and write the content. As on Linux, a path that ends with a slash is refused as a
      directory once the directories before its last name are found.\<close>
  "open_wb fsys s content =
     (if CHR 0x00 \<in> set s then Inl null_byte
      else if s = [] then Inl (os_error ENOENT s)
      else if last s = CHR ''/'' then
        (case walk fsys (if hd s = CHR ''/'' then [] else cwd fsys)
                (butlast (rev (dropWhile (\<lambda>c. c = []) (rev (split_sep s))))) of
           Inl e \<Rightarrow> Inl (os_error e s)
         | Inr _ \<Rightarrow> Inl (os_error EISDIR s))
      else (case resolve_parent fsys s of
              Inl e \<Rightarrow> Inl (os_error e s)
            | Inr d \<Rightarrow>
                (let f = last (split_sep s) in
                 if f = ''.'' \<or> f = ''..'' then Inl (os_error EISDIR s)
                 else (case lookup fsys (d @ [f]) of
                         Some Dir \<Rightarrow> Inl (os_error EISDIR s)
                       | _ \<Rightarrow> Inr (fsys\<lparr>nodes :=
                           (d @ [f], File content) # filter (\<lambda>kv. fst kv \<noteq> d @ [f]) (nodes fsys)\<rparr>)))))"

definition os_remove :: "filesys \<Rightarrow> string \<Rightarrow> exn + filesys" where
  "os_remove fsys s =
     (if CHR 0x00 \<in> set s then Inl null_byte
      else (case stat fsys s of
              Inl e \<Rightarrow> Inl (os_error e s)
            | Inr (_, Dir) \<Rightarrow> Inl (os_error EISDIR s)
            | Inr (p, File _) \<Rightarrow> Inr (fsys\<lparr>nodes := filter (\<lambda>kv. fst kv \<noteq> p) (nodes fsys)\<rparr>)))"

definition shutil_rmtree :: "filesys \<Rightarrow> string \<Rightarrow> exn + filesys" where
  "shutil_rmtree fsys s =
     (if CHR 0x00 \<in> set s then Inl null_byte
      else (case stat fsys s of
              Inl e \<Rightarrow> Inl (os_error e s)
            | Inr (_, File _) \<Rightarrow> Inl (os_error ENOTDIR s)
            | Inr (p, Dir) \<Rightarrow>
                Inr (fsys\<lparr>nodes := filter (\<lambda>kv. \<not> prefix p (fst kv)) (nodes fsys)\<rparr>)))"

definition valid_name :: "string \<Rightarrow> bool" where
  \<comment> \<open>what a directory entry can be called\<close>
  "valid_name n =
     (n \<noteq> [] \<and> n \<noteq> ''.'' \<and> n \<noteq> ''..'' \<and> CHR ''/'' \<notin> set n \<and> CHR 0x00 \<notin> set n)"

definition wf_filesys :: "filesys \<Rightarrow> bool" where
  \<comment> \<open>every component of every path of the table, and of the working directory, is a name\<close>
  "wf_filesys fsys =
     (list_all (\<lambda>kv. list_all valid_name (fst kv)) (nodes fsys) \<and> list_all valid_name (cwd fsys))"

definition read_file :: "filesys \<Rightarrow> string \<Rightarrow> string option" where
  \<comment> \<open>what \<^verbatim>\<open>open(s, "rb").read()\<close> would give, if the path names a regular file\<close>
  "read_file fsys s =
     (if CHR 0x00 \<in> set s then None
      else (case stat fsys s of Inr (_, File c) \<Rightarrow> Some c | _ \<Rightarrow> None))"

section \<open>Session state and collaborators\<close>

text \<open>
  The modules \<^verbatim>\<open>src.ingestion\<close>, \<^verbatim>\<open>src.rag\<close> and \<^verbatim>\<open>src.quiz_generator\<close> are not part of the
  sources: their functions are parameters of the model. Each is an arbitrary function of the
  file system, of the collaborators' own state \<^typ>\<open>'c\<close> (the \<^verbatim>\<open>ingestion\<close> object, the
  persisted index, the language model) and of its arguments; it returns a result or raises,
  and leaves a new state of its own. Objects that the route layer only passes on (chunks,
  the vector store, the two engines) have type \<^typ>\<open>'o\<close>; results that it inspects are
  dictionaries. A collaborator does not write the files that the route layer manages.
\<close>

record ('c, 'o) collaborators =
  process_documents :: "filesys \<Rightarrow> 'c \<Rightarrow> string \<Rightarrow> (exn + 'o list) \<times> 'c"
  create_vector_store :: "filesys \<Rightarrow> 'c \<Rightarrow> 'o list \<Rightarrow> string \<Rightarrow> (exn + 'o) \<times> 'c"
  add_documents_to_existing_store :: "filesys \<Rightarrow> 'c \<Rightarrow> 'o list \<Rightarrow> string \<Rightarrow> (exn + unit) \<times> 'c"
  load_vector_store :: "filesys \<Rightarrow> 'c \<Rightarrow> string \<Rightarrow> (exn + 'o) \<times> 'c"
  RAGSystem :: "filesys \<Rightarrow> 'c \<Rightarrow> 'o \<Rightarrow> (exn + 'o) \<times> 'c"
  QuizGenerator :: "filesys \<Rightarrow> 'c \<Rightarrow> 'o \<Rightarrow> (exn + 'o) \<times> 'c"
  rag_ask_question :: "filesys \<Rightarrow> 'c \<Rightarrow> 'o \<Rightarrow> string \<Rightarrow> int \<Rightarrow> (exn + dict) \<times> 'c"
  rag_summarize :: "filesys \<Rightarrow> 'c \<Rightarrow> 'o \<Rightarrow> string option \<Rightarrow> string \<Rightarrow> int \<Rightarrow> (exn + dict) \<times> 'c"
  rag_extract_definitions :: "filesys \<Rightarrow> 'c \<Rightarrow> 'o \<Rightarrow> string \<Rightarrow> (exn + dict) \<times> 'c"
  quiz_generate_quiz :: "filesys \<Rightarrow> 'c \<Rightarrow> 'o \<Rightarrow> string \<Rightarrow> int \<Rightarrow> string \<Rightarrow> (exn + dict) \<times> 'c"
  quiz_grade_quiz :: "filesys \<Rightarrow> 'c \<Rightarrow> 'o \<Rightarrow> dict list \<Rightarrow> (int \<times> string) list \<Rightarrow> (exn + dict) \<times> 'c"

text \<open>
  Every collaborator call is logged with the exception it raised, if any. The log is not
  part of the program; it is what the statements about calls are made of.
\<close>

datatype 'o call =
    ProcessDocuments string
  | CreateVectorStore "'o list" string
  | AddDocumentsToExistingStore "'o list" string
  | LoadVectorStore string
  | NewRAGSystem 'o
  | NewQuizGenerator 'o
  | AskQuestion 'o string int
  | Summarize 'o "string option" string int
  | ExtractDefinitions 'o string
  | GenerateQuiz 'o string int string
  | GradeQuiz 'o "dict list" "(int \<times> string) list"

record ('c, 'o) state =
  fs :: filesys
  vector_store :: "'o option"
  rag_system :: "'o option"
  quiz_generator :: "'o option"
  collab_state :: 'c
  calls :: "('o call \<times> exn option) list"

definition raised :: "exn + 'a \<Rightarrow> exn option" where
  "raised r = (case r of Inl e \<Rightarrow> Some e | Inr _ \<Rightarrow> None)"

definition invoke ::
  "'o call \<Rightarrow> (filesys \<Rightarrow> 'c \<Rightarrow> (exn + 'a) \<times> 'c) \<Rightarrow> ('c, 'o) state \<Rightarrow> (exn + 'a) \<times> ('c, 'o) state"
where
  "invoke c f st =
     (case f (fs st) (collab_state st) of
        (r, c') \<Rightarrow> (r, st\<lparr>collab_state := c', calls := calls st @ [(c, raised r)]\<rparr>))"

definition UPLOAD_DIR :: string where
  "UPLOAD_DIR = ''data/uploads''"

definition VECTOR_STORE_NAME :: string where
  "VECTOR_STORE_NAME = ''study_materials''"

section \<open>The route handlers\<close>

text \<open>
  A handler takes the collaborators, the validated request and the state, and gives back the
  response body or the exception that leaves it, with the new state. The calls of
  \<^verbatim>\<open>print\<close> are left out.
\<close>

subsection \<open>\<^verbatim>\<open>POST /upload\<close>\<close>

record UploadFile =
  filename :: string
  content :: string

definition index_step ::
  "('c, 'o) collaborators \<Rightarrow> 'o list \<Rightarrow> ('c, 'o) state \<Rightarrow> (exn + 'o) \<times> ('c, 'o) state"
where
  \<comment> \<open>the body of the inner \<^verbatim>\<open>try\<close>; the value is the new \<^verbatim>\<open>vector_store\<close>\<close>
  "index_step C chunks st =
     (case vector_store st of
        None \<Rightarrow>
          (case invoke (CreateVectorStore chunks VECTOR_STORE_NAME)
                  (\<lambda>f c. create_vector_store C f c chunks VECTOR_STORE_NAME) st of
             (Inl e, st1) \<Rightarrow> (Inl e, st1)
           | (Inr vs, st1) \<Rightarrow> (Inr vs, st1\<lparr>vector_store := Some vs\<rparr>))
      | Some _ \<Rightarrow>
          (case invoke (AddDocumentsToExistingStore chunks VECTOR_STORE_NAME)
                  (\<lambda>f c. add_documents_to_existing_store C f c chunks VECTOR_STORE_NAME) st of
             (Inl e, st1) \<Rightarrow> (Inl e, st1)
           | (Inr _, st1) \<Rightarrow>
               (case invoke (LoadVectorStore VECTOR_STORE_NAME)
                       (\<lambda>f c. load_vector_store C f c VECTOR_STORE_NAME) st1 of
                  (Inl e, st2) \<Rightarrow> (Inl e, st2)
                | (Inr vs, st2) \<Rightarrow> (Inr vs, st2\<lparr>vector_store := Some vs\<rparr>))))"

definition create_or_update ::
  "('c, 'o) collaborators \<Rightarrow> 'o list \<Rightarrow> ('c, 'o) state \<Rightarrow> (exn + 'o) \<times> ('c, 'o) state"
where
  \<comment> \<open>the inner \<^verbatim>\<open>try\<close> with its \<^verbatim>\<open>except Exception as e\<close>\<close>
  "create_or_update C chunks st =
     (case index_step C chunks st of
        (Inl e, st1) \<Rightarrow>
          (Inl (HTTPException 500
             (PStr (''Failed to create/update vector store: '' @ str_exn e))), st1)
      | (Inr vs, st1) \<Rightarrow> (Inr vs, st1))"

definition upload_response :: "string \<Rightarrow> nat \<Rightarrow> pyval" where
  "upload_response name n = PDict
     [(''message'', PStr ''Document uploaded and processed successfully''),
      (''filename'', PStr name),
      (''chunks_created'', PInt (int n)),
      (''status'', PStr ''success'')]"

definition initialize_engines ::
  "('c, 'o) collaborators \<Rightarrow> 'o \<Rightarrow> ('c, 'o) state \<Rightarrow> (exn + unit) \<times> ('c, 'o) state"
where
  \<comment> \<open>\<^verbatim>\<open>rag_system = RAGSystem(vector_store); quiz_generator = QuizGenerator(vector_store)\<close>\<close>
  "initialize_engines C vs st =
     (case invoke (NewRAGSystem vs) (\<lambda>f c. RAGSystem C f c vs) st of
        (Inl e, st1) \<Rightarrow> (Inl e, st1)
      | (Inr rag, st1) \<Rightarrow>
          (case invoke (NewQuizGenerator vs) (\<lambda>f c. QuizGenerator C f c vs)
                  (st1\<lparr>rag_system := Some rag\<rparr>) of
             (Inl e, st2) \<Rightarrow> (Inl e, st2)
           | (Inr quiz, st2) \<Rightarrow> (Inr (), st2\<lparr>quiz_generator := Some quiz\<rparr>)))"

definition process_upload ::
  "('c, 'o) collaborators \<Rightarrow> UploadFile \<Rightarrow> string \<Rightarrow> ('c, 'o) state \<Rightarrow> (exn + pyval) \<times> ('c, 'o) state"
where
  \<comment> \<open>the outer \<^verbatim>\<open>try\<close> from \<^verbatim>\<open>ingestion.process_documents(file_path)\<close> on\<close>
  "process_upload C file file_path st =
     (case invoke (ProcessDocuments file_path) (\<lambda>f c. process_documents C f c file_path) st of
        (Inl e, st1) \<Rightarrow> (Inl e, st1)
      | (Inr chunks, st1) \<Rightarrow>
          if chunks = [] then
            (Inl (HTTPException 500 (PStr ''Failed to extract content from document'')), st1)
          else
            (case create_or_update C chunks st1 of
               (Inl e, st2) \<Rightarrow> (Inl e, st2)
             | (Inr vs, st2) \<Rightarrow>
                 (case initialize_engines C vs st2 of
                    (Inl e, st3) \<Rightarrow> (Inl e, st3)
                  | (Inr _, st3) \<Rightarrow>
                      (Inr (upload_response (filename file) (length chunks)), st3))))"

definition file_extension :: "UploadFile \<Rightarrow> string" where
  "file_extension file = lower (path_suffix (filename file))"

definition upload_try ::
  "('c, 'o) collaborators \<Rightarrow> UploadFile \<Rightarrow> ('c, 'o) state \<Rightarrow> (exn + pyval) \<times> ('c, 'o) state"
where
  \<comment> \<open>the body of the outer \<^verbatim>\<open>try\<close>\<close>
  "upload_try C file st =
     (if file_extension file \<notin> set [''.pdf'', ''.txt''] then
        (Inl (HTTPException 400 (PStr (''Unsupported file type: '' @ file_extension file @
           ''. Only .pdf and .txt are supported.''))), st)
      else
        (let file_path = os_path_join UPLOAD_DIR (filename file) in
         case open_wb (fs st) file_path (content file) of
           Inl e \<Rightarrow> (Inl e, st)
         | Inr fs1 \<Rightarrow> process_upload C file file_path (st\<lparr>fs := fs1\<rparr>)))"

definition upload_document ::
  "('c, 'o) collaborators \<Rightarrow> UploadFile \<Rightarrow> ('c, 'o) state \<Rightarrow> (exn + pyval) \<times> ('c, 'o) state"
where
  \<comment> \<open>\<^verbatim>\<open>except HTTPException: raise\<close>, then \<^verbatim>\<open>except Exception as e\<close>\<close>
  "upload_document C file st =
     (case upload_try C file st of
        (Inl (HTTPException code d), st1) \<Rightarrow> (Inl (HTTPException code d), st1)
      | (Inl (Exception m), st1) \<Rightarrow>
          (Inl (HTTPException 500 (PStr (''Upload failed: '' @ str_exn (Exception m)))), st1)
      | (Inr r, st1) \<Rightarrow> (Inr r, st1))"

subsection \<open>The query endpoints\<close>

definition py_getitem :: "dict \<Rightarrow> string \<Rightarrow> exn + pyval" where
  \<comment> \<open>\<^verbatim>\<open>d[k]\<close>; the \<^verbatim>\<open>str\<close> of a \<^verbatim>\<open>KeyError\<close> is the \<^verbatim>\<open>repr\<close> of the key\<close>
  "py_getitem d k = (case map_of d k of None \<Rightarrow> Inl (Exception (repr_str k)) | Some v \<Rightarrow> Inr v)"

definition py_len :: "pyval \<Rightarrow> exn + nat" where
  "py_len v = (case v of
       PStr s \<Rightarrow> Inr (length s)
     | PList xs \<Rightarrow> Inr (length xs)
     | PDict kvs \<Rightarrow> Inr (length (remdups (map fst kvs)))
     | PNone \<Rightarrow> Inl (Exception ''object of type 'NoneType' has no len()'')
     | PBool _ \<Rightarrow> Inl (Exception ''object of type 'bool' has no len()'')
     | PInt _ \<Rightarrow> Inl (Exception ''object of type 'int' has no len()''))"

definition len_sources :: "dict \<Rightarrow> exn + nat" where
  \<comment> \<open>\<^verbatim>\<open>len(result['sources'])\<close>, evaluated for the log line\<close>
  "len_sources result =
     (case py_getitem result ''sources'' of Inl e \<Rightarrow> Inl e | Inr v \<Rightarrow> py_len v)"

definition no_documents :: exn where
  "no_documents =
     HTTPException 400 (PStr ''No documents uploaded yet. Please upload documents first.'')"

text \<open>The field \<^verbatim>\<open>k\<close> of the two request models and the field \<^verbatim>\<open>topic\<close> of
  \<^verbatim>\<open>QuizRequest\<close> carry a prefix here.\<close>

record QuestionRequest =
  question :: string
  question_k :: int

definition ask_question ::
  "('c, 'o) collaborators \<Rightarrow> QuestionRequest \<Rightarrow> ('c, 'o) state \<Rightarrow> (exn + pyval) \<times> ('c, 'o) state"
where
  "ask_question C request st =
     (case rag_system st of
        None \<Rightarrow> (Inl no_documents, st)
      | Some rag \<Rightarrow>
          (case invoke (AskQuestion rag (question request) (question_k request))
                  (\<lambda>f c. rag_ask_question C f c rag (question request) (question_k request)) st of
             (Inl e, st1) \<Rightarrow>
               (Inl (HTTPException 500 (PStr (''Question answering failed: '' @ str_exn e))), st1)
           | (Inr result, st1) \<Rightarrow>
               (case len_sources result of
                  Inl e \<Rightarrow>
                    (Inl (HTTPException 500
                       (PStr (''Question answering failed: '' @ str_exn e))), st1)
                | Inr _ \<Rightarrow> (Inr (PDict result), st1))))"

record SummarizeRequest =
  topic :: "string option"
  summary_type :: string
  summary_k :: int

definition summarize ::
  "('c, 'o) collaborators \<Rightarrow> SummarizeRequest \<Rightarrow> ('c, 'o) state \<Rightarrow> (exn + pyval) \<times> ('c, 'o) state"
where
  "summarize C request st =
     (case rag_system st of
        None \<Rightarrow> (Inl no_documents, st)
      | Some rag \<Rightarrow>
          (case invoke (Summarize rag (topic request) (summary_type request) (summary_k request))
                  (\<lambda>f c. rag_summarize C f c rag (topic request) (summary_type request)
                     (summary_k request)) st of
             (Inl e, st1) \<Rightarrow>
               (Inl (HTTPException 500 (PStr (''Summarization failed: '' @ str_exn e))), st1)
           | (Inr result, st1) \<Rightarrow>
               (case len_sources result of
                  Inl e \<Rightarrow>
                    (Inl (HTTPException 500 (PStr (''Summarization failed: '' @ str_exn e))), st1)
                | Inr _ \<Rightarrow> (Inr (PDict result), st1))))"

definition get_definitions ::
  "('c, 'o) collaborators \<Rightarrow> string \<Rightarrow> ('c, 'o) state \<Rightarrow> (exn + pyval) \<times> ('c, 'o) state"
where
  "get_definitions C tpc st =
     (case rag_system st of
        None \<Rightarrow> (Inl no_documents, st)
      | Some rag \<Rightarrow>
          (case invoke (ExtractDefinitions rag tpc)
                  (\<lambda>f c. rag_extract_definitions C f c rag tpc) st of
             (Inl e, st1) \<Rightarrow>
               (Inl (HTTPException 500
                  (PStr (''Definition extraction failed: '' @ str_exn e))), st1)
           | (Inr result, st1) \<Rightarrow>
               (case len_sources result of
                  Inl e \<Rightarrow>
                    (Inl (HTTPException 500
                       (PStr (''Definition extraction failed: '' @ str_exn e))), st1)
                | Inr _ \<Rightarrow> (Inr (PDict result), st1))))"

subsection \<open>The quiz endpoints\<close>

record QuizRequest =
  quiz_topic :: string
  num_questions :: int
  difficulty :: string

definition HTTPException_500 :: "pyval \<Rightarrow> exn" where
  \<comment> \<open>\<^verbatim>\<open>HTTPException(status_code=500, detail=d)\<close>: Starlette puts the phrase of the status in
      the place of a detail that is \<^verbatim>\<open>None\<close>\<close>
  "HTTPException_500 d = HTTPException 500 (if d = PNone then PStr ''Internal Server Error'' else d)"

definition quiz_try ::
  "('c, 'o) collaborators \<Rightarrow> QuizRequest \<Rightarrow> 'o \<Rightarrow> ('c, 'o) state \<Rightarrow> (exn + pyval) \<times> ('c, 'o) state"
where
  \<comment> \<open>the body of the \<^verbatim>\<open>try\<close> of \<^verbatim>\<open>generate_quiz\<close>\<close>
  "quiz_try C request gen st =
     (case invoke (GenerateQuiz gen (quiz_topic request) (num_questions request) (difficulty request))
             (\<lambda>f c. quiz_generate_quiz C f c gen (quiz_topic request) (num_questions request)
                (difficulty request)) st of
        (Inl e, st1) \<Rightarrow> (Inl e, st1)
      | (Inr quiz, st1) \<Rightarrow>
          (case map_of quiz ''error'' of
             Some err \<Rightarrow> (Inl (HTTPException_500 err), st1)
           | None \<Rightarrow>
               (case py_len (case map_of quiz ''questions'' of None \<Rightarrow> PList [] | Some q \<Rightarrow> q) of
                  Inl e \<Rightarrow> (Inl e, st1)
                | Inr _ \<Rightarrow> (Inr (PDict quiz), st1))))"

definition generate_quiz ::
  "('c, 'o) collaborators \<Rightarrow> QuizRequest \<Rightarrow> ('c, 'o) state \<Rightarrow> (exn + pyval) \<times> ('c, 'o) state"
where
  "generate_quiz C request st =
     (case quiz_generator st of
        None \<Rightarrow> (Inl no_documents, st)
      | Some gen \<Rightarrow>
          (case quiz_try C request gen st of
             (Inl (HTTPException code d), st1) \<Rightarrow> (Inl (HTTPException code d), st1)
           | (Inl (Exception m), st1) \<Rightarrow>
               (Inl (HTTPException 500
                  (PStr (''Quiz generation failed: '' @ str_exn (Exception m)))), st1)
           | (Inr r, st1) \<Rightarrow> (Inr r, st1)))"

record GradeQuizRequest =
  questions :: "dict list"
  user_answers :: "(int \<times> string) list"

definition grade_quiz ::
  "('c, 'o) collaborators \<Rightarrow> GradeQuizRequest \<Rightarrow> ('c, 'o) state \<Rightarrow> (exn + pyval) \<times> ('c, 'o) state"
where
  "grade_quiz C request st =
     (case quiz_generator st of
        None \<Rightarrow> (Inl no_documents, st)
      | Some gen \<Rightarrow>
          (case invoke (GradeQuiz gen (questions request) (user_answers request))
                  (\<lambda>f c. quiz_grade_quiz C f c gen (questions request) (user_answers request)) st of
             (Inl e, st1) \<Rightarrow>
               (Inl (HTTPException 500 (PStr (''Quiz grading failed: '' @ str_exn e))), st1)
           | (Inr results, st1) \<Rightarrow>
               (case py_getitem results ''score'' of
                  Inl e \<Rightarrow>
                    (Inl (HTTPException 500 (PStr (''Quiz grading failed: '' @ str_exn e))), st1)
                | Inr _ \<Rightarrow> (Inr (PDict results), st1))))"

subsection \<open>\<^verbatim>\<open>GET /documents\<close>, \<^verbatim>\<open>DELETE /reset\<close> and \<^verbatim>\<open>GET /\<close>\<close>

definition uploaded_files :: "filesys \<Rightarrow> exn + string list" where
  \<comment> \<open>\<^verbatim>\<open>[f for f in os.listdir(UPLOAD_DIR) if os.path.isfile(os.path.join(UPLOAD_DIR, f))]\<close>\<close>
  "uploaded_files fsys =
     (case os_listdir fsys UPLOAD_DIR of
        Inl e \<Rightarrow> Inl e
      | Inr names \<Rightarrow> Inr (filter (\<lambda>f. os_path_isfile fsys (os_path_join UPLOAD_DIR f)) names))"

definition list_documents :: "('c, 'o) state \<Rightarrow> (exn + pyval) \<times> ('c, 'o) state" where
  "list_documents st =
     (case uploaded_files (fs st) of
        Inl e \<Rightarrow>
          (Inl (HTTPException 500 (PStr (''Failed to list documents: '' @ str_exn e))), st)
      | Inr files \<Rightarrow>
          (Inr (PDict [(''documents'', PList (map PStr files)),
                       (''count'', PInt (int (length files)))]), st))"

fun clear_uploads :: "string list \<Rightarrow> filesys \<Rightarrow> (exn + unit) \<times> filesys" where
  \<comment> \<open>the loop of \<^verbatim>\<open>reset_system\<close> over the names that \<^verbatim>\<open>os.listdir(UPLOAD_DIR)\<close> gave; what
      was removed before an exception stays removed\<close>
  "clear_uploads [] fsys = (Inr (), fsys)"
| "clear_uploads (file # files) fsys =
     (let file_path = os_path_join UPLOAD_DIR file in
      if os_path_isfile fsys file_path then
        (case os_remove fsys file_path of
           Inl e \<Rightarrow> (Inl e, fsys)
         | Inr fs1 \<Rightarrow> clear_uploads files fs1)
      else clear_uploads files fsys)"

definition clear_vector_store :: "filesys \<Rightarrow> exn + filesys" where
  "clear_vector_store fsys =
     (let vector_store_path = os_path_join ''data/vector_store'' VECTOR_STORE_NAME in
      if os_path_exists fsys vector_store_path then shutil_rmtree fsys vector_store_path
      else Inr fsys)"

definition reset_response :: pyval where
  "reset_response = PDict [(''message'', PStr ''System reset successfully''),
                           (''status'', PStr ''success'')]"

definition reset_try :: "('c, 'o) state \<Rightarrow> (exn + pyval) \<times> ('c, 'o) state" where
  \<comment> \<open>the body of the \<^verbatim>\<open>try\<close> of \<^verbatim>\<open>reset_system\<close>\<close>
  "reset_try st =
     (case os_listdir (fs st) UPLOAD_DIR of
        Inl e \<Rightarrow> (Inl e, st)
      | Inr names \<Rightarrow>
          (case clear_uploads names (fs st) of
             (Inl e, fs1) \<Rightarrow> (Inl e, st\<lparr>fs := fs1\<rparr>)
           | (Inr _, fs1) \<Rightarrow>
               (case clear_vector_store fs1 of
                  Inl e \<Rightarrow> (Inl e, st\<lparr>fs := fs1\<rparr>)
                | Inr fs2 \<Rightarrow>
                    (Inr reset_response,
                     st\<lparr>fs := fs2, vector_store := None, rag_system := None,
                        quiz_generator := None\<rparr>))))"

definition reset_system :: "('c, 'o) state \<Rightarrow> (exn + pyval) \<times> ('c, 'o) state" where
  "reset_system st =
     (case reset_try st of
        (Inl e, st1) \<Rightarrow> (Inl (HTTPException 500 (PStr (''Reset failed: '' @ str_exn e))), st1)
      | (Inr r, st1) \<Rightarrow> (Inr r, st1))"

definition root :: "('c, 'o) state \<Rightarrow> (exn + pyval) \<times> ('c, 'o) state" where
  "root st =
     (Inr (PDict
        [(''message'', PStr ''AI Study Assistant API - Powered by Ollama''),
         (''status'', PStr ''running''),
         (''documents_loaded'', PBool (vector_store st \<noteq> None)),
         (''ollama_url'', PStr ''http://localhost:11434''),
         (''endpoints'', PDict
            [(''upload'', PStr ''/upload''),
             (''ask'', PStr ''/ask''),
             (''summarize'', PStr ''/summarize''),
             (''definitions'', PStr ''/definitions''),
             (''quiz_generate'', PStr ''/quiz/generate''),
             (''quiz_grade'', PStr ''/quiz/grade''),
             (''documents'', PStr ''/documents'')])]), st)"

subsection \<open>The routes\<close>

datatype request =
    GetRoot
  | PostUpload UploadFile
  | PostAsk QuestionRequest
  | PostSummarize SummarizeRequest
  | PostDefinitions string
  | PostQuizGenerate QuizRequest
  | PostQuizGrade GradeQuizRequest
  | GetDocuments
  | DeleteReset

fun route ::
  "('c, 'o) collaborators \<Rightarrow> request \<Rightarrow> ('c, 'o) state \<Rightarrow> (exn + pyval) \<times> ('c, 'o) state"
where
  "route C GetRoot st = root st"
| "route C (PostUpload file) st = upload_document C file st"
| "route C (PostAsk request) st = ask_question C request st"
| "route C (PostSummarize request) st = summarize C request st"
| "route C (PostDefinitions tpc) st = get_definitions C tpc st"
| "route C (PostQuizGenerate request) st = generate_quiz C request st"
| "route C (PostQuizGrade request) st = grade_quiz C request st"
| "route C GetDocuments st = list_documents st"
| "route C DeleteReset st = reset_system st"

definition initial_state :: "filesys \<Rightarrow> 'c \<Rightarrow> ('c, 'o) state" where
  \<comment> \<open>the module's globals when the process starts\<close>
  "initial_state fsys c =
     \<lparr>fs = fsys, vector_store = None, rag_system = None, quiz_generator = None,
      collab_state = c, calls = []\<rparr>"

section \<open>Vocabulary of the statements\<close>

text \<open>
  The collaborator calls that a request adds to the log, the canonical paths of the upload
  directory and of the persisted index, and the predicates that the proofs carry along.
\<close>

definition new_calls :: "('c, 'o) state \<Rightarrow> ('c, 'o) state \<Rightarrow> ('o call \<times> exn option) list" where
  "new_calls st st' = drop (length (calls st)) (calls st')"

fun reraises_http :: "request \<Rightarrow> bool" where
  \<comment> \<open>the handlers with \<^verbatim>\<open>except HTTPException: raise\<close>\<close>
  "reraises_http (PostUpload _) = True"
| "reraises_http (PostQuizGenerate _) = True"
| "reraises_http _ = False"

definition wraps :: "bool \<Rightarrow> exn + pyval \<Rightarrow> ('o call \<times> exn option) list \<Rightarrow> bool" where
  "wraps thru r evs =
     ((\<forall>c m. (c, Some (Exception m)) \<in> set evs \<longrightarrow>
        (\<exists>d. r = Inl (HTTPException 500 (PStr d)) \<and> suffix m d)) \<and>
      (\<forall>c e. (c, Some e) \<in> set evs \<longrightarrow> (\<exists>code d. r = Inl (HTTPException code d))) \<and>
      (\<forall>x. r \<noteq> Inl (Exception x)) \<and>
      (\<forall>c e. (c, Some e) \<in> set evs \<longrightarrow>
        (\<exists>d. r = Inl (HTTPException 500 (PStr d)) \<and> suffix (str_exn e) d) \<or>
        (thru \<and> r = Inl e \<and> (\<exists>code d. e = HTTPException code d))))"


definition upload_path :: "filesys \<Rightarrow> path" where
  "upload_path fsys = cwd fsys @ [''data'', ''uploads'']"

definition upload_dir_ok :: "filesys \<Rightarrow> bool" where
  "upload_dir_ok fsys =
     (lookup fsys (cwd fsys @ [''data'']) = Some Dir \<and> lookup fsys (upload_path fsys) = Some Dir)"

definition vector_store_path :: "filesys \<Rightarrow> path" where
  "vector_store_path fsys = cwd fsys @ [''data'', ''vector_store'', ''study_materials'']"


section \<open>Sample inputs\<close>

text \<open>
  A small file system, with the upload directory and one stored file, and collaborators that
  always succeed; the collaborators' state counts their calls.
\<close>

definition sample_fs :: filesys where
  "sample_fs = \<lparr>nodes =
      [([''app''], Dir), ([''app'', ''data''], Dir), ([''app'', ''data'', ''uploads''], Dir),
       ([''app'', ''data'', ''uploads'', ''notes.txt''], File ''old'')],
    cwd = [''app'']\<rparr>"

definition sample_collaborators :: "(nat, nat) collaborators" where
  "sample_collaborators = \<lparr>
     process_documents = (\<lambda>f c p. (Inr [1, 2], c + 1)),
     create_vector_store = (\<lambda>f c chunks name. (Inr 10, c + 1)),
     add_documents_to_existing_store = (\<lambda>f c chunks name. (Inr (), c + 1)),
     load_vector_store = (\<lambda>f c name. (Inr 11, c + 1)),
     RAGSystem = (\<lambda>f c vs. (Inr (vs + 100), c + 1)),
     QuizGenerator = (\<lambda>f c vs. (Inr (vs + 200), c + 1)),
     rag_ask_question =
       (\<lambda>f c rag q n. (Inr [(''answer'', PStr ''42''), (''sources'', PList [])], c + 1)),
     rag_summarize =
       (\<lambda>f c rag t s n. (Inr [(''summary'', PStr ''short''), (''sources'', PList [])], c + 1)),
     rag_extract_definitions =
       (\<lambda>f c rag t. (Inr [(''definitions'', PStr ''none''), (''sources'', PList [])], c + 1)),
     quiz_generate_quiz = (\<lambda>f c gen t n d. (Inr [(''questions'', PList [])], c + 1)),
     quiz_grade_quiz = (\<lambda>f c gen qs answers. (Inr [(''score'', PInt 50)], c + 1))\<rparr>"

definition sample_state :: "(nat, nat) state" where
  "sample_state = initial_state sample_fs 0"

definition docx_file :: UploadFile where
  "docx_file = \<lparr>filename = ''notes.docx'', content = ''abc''\<rparr>"

definition txt_file :: UploadFile where
  "txt_file = \<lparr>filename = ''notes.txt'', content = ''new''\<rparr>"

definition saved_fs :: filesys where
  \<comment> \<open>\<open>sample_fs\<close> after \<open>txt_file\<close> has been saved\<close>
  "saved_fs = \<lparr>nodes =
      [([''app'', ''data'', ''uploads'', ''notes.txt''], File ''new''),
       ([''app''], Dir), ([''app'', ''data''], Dir), ([''app'', ''data'', ''uploads''], Dir)],
    cwd = [''app'']\<rparr>"

definition no_chunks :: "(nat, nat) collaborators" where
  \<comment> \<open>ingestion extracts nothing\<close>
  "no_chunks = sample_collaborators\<lparr>process_documents := (\<lambda>f c p. (Inr [], c + 1))\<rparr>"

definition loaded_state :: "(nat, nat) state" where
  "loaded_state = \<lparr>fs = saved_fs, vector_store = Some 10, rag_system = Some 110,
     quiz_generator = Some 210, collab_state = 4,
     calls = [(ProcessDocuments ''data/uploads/notes.txt'', None),
              (CreateVectorStore [1, 2] ''study_materials'', None),
              (NewRAGSystem 10, None), (NewQuizGenerator 10, None)]\<rparr>"


definition cleared_state :: "(nat, nat) state" where
  "cleared_state = \<lparr>fs = \<lparr>nodes = [([''app''], Dir), ([''app'', ''data''], Dir),
        ([''app'', ''data'', ''uploads''], Dir)], cwd = [''app'']\<rparr>,
     vector_store = None, rag_system = None, quiz_generator = None, collab_state = 4,
     calls = [(ProcessDocuments ''data/uploads/notes.txt'', None),
              (CreateVectorStore [1, 2] ''study_materials'', None),
              (NewRAGSystem 10, None), (NewQuizGenerator 10, None)]\<rparr>"

definition outside_file :: UploadFile where
  "outside_file = \<lparr>filename = ''../outside.txt'', content = ''new''\<rparr>"

definition archive_fs :: filesys where
  "archive_fs = \<lparr>nodes =
      [([''app''], Dir), ([''app'', ''data''], Dir), ([''app'', ''data'', ''uploads''], Dir),
       ([''app'', ''data'', ''uploads'', ''notes.txt''], File ''old''),
       ([''app'', ''data'', ''uploads'', ''archive''], Dir)],
    cwd = [''app'']\<rparr>"

definition archive_state :: "(nat, nat) state" where
  "archive_state = initial_state archive_fs 0"

definition indexed_fs :: filesys where
  \<comment> \<open>\<open>saved_fs\<close> with a persisted index\<close>
  "indexed_fs = \<lparr>nodes =
      [([''app'', ''data'', ''uploads'', ''notes.txt''], File ''new''),
       ([''app''], Dir), ([''app'', ''data''], Dir), ([''app'', ''data'', ''uploads''], Dir),
       ([''app'', ''data'', ''vector_store''], Dir),
       ([''app'', ''data'', ''vector_store'', ''study_materials''], Dir),
       ([''app'', ''data'', ''vector_store'', ''study_materials'', ''index.faiss''], File ''idx'')],
    cwd = [''app'']\<rparr>"

definition indexed_state :: "(nat, nat) state" where
  "indexed_state = loaded_state\<lparr>fs := indexed_fs\<rparr>"

definition emptied_fs :: filesys where
  \<comment> \<open>\<open>indexed_fs\<close> after a reset\<close>
  "emptied_fs = \<lparr>nodes =
      [([''app''], Dir), ([''app'', ''data''], Dir), ([''app'', ''data'', ''uploads''], Dir),
       ([''app'', ''data'', ''vector_store''], Dir)],
    cwd = [''app'']\<rparr>"

definition unreadable :: "(nat, nat) collaborators" where
  "unreadable = sample_collaborators\<lparr>process_documents := (\<lambda>f c p. (Inl (Exception ''cannot read file''), c + 1))\<rparr>"

definition http_raising :: "(nat, nat) collaborators" where
  "http_raising = sample_collaborators\<lparr>process_documents := (\<lambda>f c p. (Inl (HTTPException 404 (PStr ''no such document'')), c + 1))\<rparr>"




section \<open>Rejected uploads\<close>

lemma docx_extension: "file_extension docx_file = ''.docx''"
  by code_simp

lemma txt_extension: "file_extension txt_file = ''.txt''"
  by code_simp

lemma upload_unsupported:
  assumes "file_extension file \<notin> {''.pdf'', ''.txt''}"
  shows "upload_document C file st =
     (Inl (HTTPException 400 (PStr (''Unsupported file type: '' @ file_extension file @
        ''. Only .pdf and .txt are supported.''))), st)"
  using assms by (simp add: upload_document_def upload_try_def)

lemma upload_no_chunks:
  assumes "file_extension file \<in> {''.pdf'', ''.txt''}"
    and "open_wb (fs st) (os_path_join UPLOAD_DIR (filename file)) (content file) = Inr fs1"
    and "process_documents C fs1 (collab_state st) (os_path_join UPLOAD_DIR (filename file))
           = (Inr [], c1)"
  shows "upload_document C file st =
     (Inl (HTTPException 500 (PStr ''Failed to extract content from document'')),
      st\<lparr>fs := fs1, collab_state := c1,
         calls := calls st @
           [(ProcessDocuments (os_path_join UPLOAD_DIR (filename file)), None)]\<rparr>)"
  using assms
  by (auto simp add: upload_document_def upload_try_def process_upload_def invoke_def raised_def)

text \<open>
  Claim C1. An upload whose file name has a lowercased extension other than \<^verbatim>\<open>.pdf\<close> and
  \<^verbatim>\<open>.txt\<close> (no extension included) is answered with an HTTP 400, and the state that the
  handler leaves is the state it found: the file system is untouched (nothing is saved) and
  the log of collaborator calls has no new entry.
\<close>

theorem upload_rejects_unsupported_extension:
  assumes "file_extension file \<notin> {''.pdf'', ''.txt''}"
  shows "upload_document C file st =
     (Inl (HTTPException 400 (PStr (''Unsupported file type: '' @ file_extension file @
        ''. Only .pdf and .txt are supported.''))), st)"
  using assms by (rule upload_unsupported)

theorem upload_rejects_unsupported_extension_witness:
  "file_extension docx_file \<notin> {''.pdf'', ''.txt''} \<and>
   upload_document sample_collaborators docx_file sample_state =
     (Inl (HTTPException 400
        (PStr ''Unsupported file type: .docx. Only .pdf and .txt are supported.'')),
      sample_state)"
  using upload_rejects_unsupported_extension [of docx_file sample_collaborators sample_state]
  by (simp add: docx_extension)

lemma sample_save:
  "open_wb (fs sample_state) (os_path_join UPLOAD_DIR (filename txt_file)) (content txt_file)
     = Inr saved_fs"
  by code_simp

lemma sample_path: "os_path_join UPLOAD_DIR (filename txt_file) = ''data/uploads/notes.txt''"
  by (simp add: UPLOAD_DIR_def txt_file_def os_path_join_def)

lemma sample_state_simps:
  "fs sample_state = sample_fs" "vector_store sample_state = None"
  "rag_system sample_state = None" "quiz_generator sample_state = None"
  "collab_state sample_state = 0" "calls sample_state = []"
  by (simp_all add: sample_state_def initial_state_def)

text \<open>
  Claim C7. When the file has a supported extension, has been saved, and the ingestion
  collaborator returns an empty list of chunks, the handler answers with an HTTP 500. The
  state it leaves differs from the one it found only in the saved file, the collaborators'
  own state and one log entry, the call of \<^verbatim>\<open>process_documents\<close>: neither
  \<^verbatim>\<open>create_vector_store\<close> nor \<^verbatim>\<open>add_documents_to_existing_store\<close> is called, and the
  session globals are as before.
\<close>

theorem upload_empty_chunks:
  assumes "file_extension file \<in> {''.pdf'', ''.txt''}"
    and "open_wb (fs st) (os_path_join UPLOAD_DIR (filename file)) (content file) = Inr fs1"
    and "process_documents C fs1 (collab_state st) (os_path_join UPLOAD_DIR (filename file))
           = (Inr [], c1)"
  shows "upload_document C file st =
     (Inl (HTTPException 500 (PStr ''Failed to extract content from document'')),
      st\<lparr>fs := fs1, collab_state := c1,
         calls := calls st @
           [(ProcessDocuments (os_path_join UPLOAD_DIR (filename file)), None)]\<rparr>)"
  using assms by (rule upload_no_chunks)

theorem upload_empty_chunks_witness:
  "file_extension txt_file \<in> {''.pdf'', ''.txt''} \<and>
   open_wb (fs sample_state) (os_path_join UPLOAD_DIR (filename txt_file)) (content txt_file)
     = Inr saved_fs \<and>
   process_documents no_chunks saved_fs (collab_state sample_state)
     (os_path_join UPLOAD_DIR (filename txt_file)) = (Inr [], 1) \<and>
   upload_document no_chunks txt_file sample_state =
     (Inl (HTTPException 500 (PStr ''Failed to extract content from document'')),
      sample_state\<lparr>fs := saved_fs, collab_state := 1,
         calls := [(ProcessDocuments ''data/uploads/notes.txt'', None)]\<rparr>)"
proof -
  have ext: "file_extension txt_file \<in> {''.pdf'', ''.txt''}"
    by (simp add: txt_extension)
  have chunks: "process_documents no_chunks saved_fs (collab_state sample_state)
      (os_path_join UPLOAD_DIR (filename txt_file)) = (Inr [], 1)"
    by (simp add: no_chunks_def sample_collaborators_def sample_state_simps)
  have "upload_document no_chunks txt_file sample_state =
     (Inl (HTTPException 500 (PStr ''Failed to extract content from document'')),
      sample_state\<lparr>fs := saved_fs, collab_state := 1,
         calls := [(ProcessDocuments ''data/uploads/notes.txt'', None)]\<rparr>)"
    using upload_empty_chunks [OF ext sample_save chunks]
    by (simp add: sample_path sample_state_simps)
  with ext sample_save chunks show ?thesis
    by blast
qed

text \<open>
  Claim C10. An upload that is rejected for its extension, or that ends with the server error
  for an empty chunk result, leaves the three session globals \<^verbatim>\<open>vector_store\<close>,
  \<^verbatim>\<open>rag_system\<close> and \<^verbatim>\<open>quiz_generator\<close> as they were.
\<close>

theorem rejected_upload_keeps_session:
  assumes "upload_document C file st = (r, st')"
    and "file_extension file \<notin> {''.pdf'', ''.txt''} \<or>
         (\<exists>fs1 c1.
            open_wb (fs st) (os_path_join UPLOAD_DIR (filename file)) (content file) = Inr fs1 \<and>
            process_documents C fs1 (collab_state st) (os_path_join UPLOAD_DIR (filename file))
              = (Inr [], c1))"
  shows "vector_store st' = vector_store st \<and> rag_system st' = rag_system st \<and>
         quiz_generator st' = quiz_generator st"
proof (cases "file_extension file \<notin> {''.pdf'', ''.txt''}")
  case True
  from upload_unsupported [OF True, of C st] assms(1) show ?thesis by simp
next
  case False
  with assms(2) obtain fs1 c1 where
    "open_wb (fs st) (os_path_join UPLOAD_DIR (filename file)) (content file) = Inr fs1"
    "process_documents C fs1 (collab_state st) (os_path_join UPLOAD_DIR (filename file))
       = (Inr [], c1)"
    by blast
  from upload_no_chunks [OF _ this] False assms(1) show ?thesis by auto
qed

theorem rejected_upload_keeps_session_witness:
  "upload_document no_chunks txt_file sample_state =
     (Inl (HTTPException 500 (PStr ''Failed to extract content from document'')),
      sample_state\<lparr>fs := saved_fs, collab_state := 1,
         calls := [(ProcessDocuments ''data/uploads/notes.txt'', None)]\<rparr>) \<and>
   open_wb (fs sample_state) (os_path_join UPLOAD_DIR (filename txt_file)) (content txt_file)
     = Inr saved_fs \<and>
   process_documents no_chunks saved_fs (collab_state sample_state)
     (os_path_join UPLOAD_DIR (filename txt_file)) = (Inr [], 1) \<and>
   vector_store (sample_state\<lparr>fs := saved_fs, collab_state := 1,
         calls := [(ProcessDocuments ''data/uploads/notes.txt'', None)]\<rparr>) = vector_store sample_state \<and>
   rag_system (sample_state\<lparr>fs := saved_fs, collab_state := 1,
         calls := [(ProcessDocuments ''data/uploads/notes.txt'', None)]\<rparr>) = rag_system sample_state \<and>
   quiz_generator (sample_state\<lparr>fs := saved_fs, collab_state := 1,
         calls := [(ProcessDocuments ''data/uploads/notes.txt'', None)]\<rparr>) = quiz_generator sample_state"
proof -
  have run: "upload_document no_chunks txt_file sample_state =
     (Inl (HTTPException 500 (PStr ''Failed to extract content from document'')),
      sample_state\<lparr>fs := saved_fs, collab_state := 1,
         calls := [(ProcessDocuments ''data/uploads/notes.txt'', None)]\<rparr>)"
    by code_simp
  have chunks: "process_documents no_chunks saved_fs (collab_state sample_state)
      (os_path_join UPLOAD_DIR (filename txt_file)) = (Inr [], 1)"
    by (simp add: no_chunks_def sample_collaborators_def sample_state_simps)
  have "file_extension txt_file \<notin> {''.pdf'', ''.txt''} \<or>
         (\<exists>fs1 c1.
            open_wb (fs sample_state) (os_path_join UPLOAD_DIR (filename txt_file))
              (content txt_file) = Inr fs1 \<and>
            process_documents no_chunks fs1 (collab_state sample_state)
              (os_path_join UPLOAD_DIR (filename txt_file)) = (Inr [], c1))"
    using sample_save chunks by blast
  from rejected_upload_keeps_session [OF run this]
  have "vector_store (sample_state\<lparr>fs := saved_fs, collab_state := 1,
         calls := [(ProcessDocuments ''data/uploads/notes.txt'', None)]\<rparr>) = vector_store sample_state \<and>
   rag_system (sample_state\<lparr>fs := saved_fs, collab_state := 1,
         calls := [(ProcessDocuments ''data/uploads/notes.txt'', None)]\<rparr>) = rag_system sample_state \<and>
   quiz_generator (sample_state\<lparr>fs := saved_fs, collab_state := 1,
         calls := [(ProcessDocuments ''data/uploads/notes.txt'', None)]\<rparr>) = quiz_generator sample_state" .
  with run sample_save chunks show ?thesis
    by blast
qed

section \<open>Queries before an upload\<close>




text \<open>
  Claim C9. While the session state is uninitialised, \<^verbatim>\<open>/quiz/grade\<close> answers with the same
  HTTP 400 and leaves the state as it found it: the grading collaborator is not called.
\<close>

theorem grade_requires_upload:
  assumes "vector_store st = None" and "rag_system st = None" and "quiz_generator st = None"
  shows "grade_quiz C g st =
           (Inl (HTTPException 400
              (PStr ''No documents uploaded yet. Please upload documents first.'')), st)"
  using assms by (simp add: grade_quiz_def no_documents_def)

theorem grade_requires_upload_witness:
  "vector_store sample_state = None \<and> rag_system sample_state = None \<and>
   quiz_generator sample_state = None \<and>
   grade_quiz sample_collaborators
       \<lparr>questions = [[(''answer'', PStr ''A'')]], user_answers = [(0, ''A'')]\<rparr> sample_state =
     (Inl (HTTPException 400
        (PStr ''No documents uploaded yet. Please upload documents first.'')), sample_state)"
  using grade_requires_upload [of sample_state sample_collaborators
      "\<lparr>questions = [[(''answer'', PStr ''A'')]], user_answers = [(0, ''A'')]\<rparr>"]
  by (simp add: sample_state_simps)

section \<open>Collaborator calls and their exceptions\<close>

lemma invokeE:
  assumes "invoke c f st = (r, st')"
  obtains c' where "f (fs st) (collab_state st) = (r, c')"
    and "st' = st\<lparr>collab_state := c', calls := calls st @ [(c, raised r)]\<rparr>"
  using assms by (auto simp: invoke_def split: prod.splits)

lemma suffix_literal [simp]: "suffix m (p @ m)"
  by (rule suffixI) simp

lemma wraps_none: "(\<And>x. r \<noteq> Inl (Exception x)) \<Longrightarrow> wraps thru r [(c, None)]"
  by (simp add: wraps_def)

lemma wraps_nil: "(\<And>x. r \<noteq> Inl (Exception x)) \<Longrightarrow> wraps thru r []"
  by (simp add: wraps_def)

lemma wraps_call: "wraps thru (Inl (HTTPException 500 (PStr (p @ str_exn e)))) [(c, Some e)]"
  by (auto simp: wraps_def str_exn_def intro: suffixI)

lemma wraps_through: "wraps True (Inl (HTTPException code d)) [(c, Some (HTTPException code d))]"
  by (auto simp: wraps_def)

lemma index_step_calls:
  assumes "index_step C chunks st = (r, st')"
  shows "\<exists>evs. calls st' = calls st @ evs \<and> list_all (\<lambda>ev. snd ev = None \<or> raised r = snd ev) evs"
  using assms
  by (auto simp: index_step_def raised_def split: option.splits prod.splits sum.splits
      elim!: invokeE)

lemma create_or_update_calls:
  assumes "create_or_update C chunks st = (r, st')"
  shows "\<exists>evs. calls st' = calls st @ evs \<and>
     list_all (\<lambda>ev. case snd ev of None \<Rightarrow> True | Some e \<Rightarrow>
        raised r = Some (HTTPException 500 (PStr (''Failed to create/update vector store: '' @ str_exn e)))) evs"
  using assms index_step_calls [of C chunks st]
  by (fastforce simp: create_or_update_def raised_def list_all_iff split: prod.splits sum.splits option.splits)

lemma initialize_engines_calls:
  assumes "initialize_engines C vs st = (r, st')"
  shows "\<exists>evs. calls st' = calls st @ evs \<and> list_all (\<lambda>ev. snd ev = None \<or> raised r = snd ev) evs"
  using assms
  by (auto simp: initialize_engines_def raised_def split: option.splits prod.splits sum.splits
      elim!: invokeE)

lemma process_upload_calls:
  assumes "process_upload C file p st = (r, st')"
  shows "\<exists>evs. calls st' = calls st @ evs \<and>
     list_all (\<lambda>ev. case snd ev of None \<Rightarrow> True | Some e \<Rightarrow>
        r = Inl e \<or>
        r = Inl (HTTPException 500 (PStr (''Failed to create/update vector store: '' @ str_exn e)))) evs"
proof -
  obtain r1 st1 where inv: "invoke (ProcessDocuments p) (\<lambda>f c. process_documents C f c p) st = (r1, st1)"
    by (cases "invoke (ProcessDocuments p) (\<lambda>f c. process_documents C f c p) st")
  then have c1: "calls st1 = calls st @ [(ProcessDocuments p, raised r1)]"
    by (auto elim!: invokeE)
  show ?thesis
  proof (cases r1)
    case (Inl e)
    with inv c1 assms show ?thesis by (auto simp: process_upload_def raised_def)
  next
    case (Inr chunks)
    show ?thesis
    proof (cases "chunks = []")
      case True
      with Inr inv c1 assms show ?thesis by (auto simp: process_upload_def raised_def)
    next
      case False
      obtain r2 st2 where cu: "create_or_update C chunks st1 = (r2, st2)"
        by (cases "create_or_update C chunks st1")
      from create_or_update_calls [OF cu] obtain evs2 where
        c2: "calls st2 = calls st1 @ evs2" and
        p2: "list_all (\<lambda>ev. case snd ev of None \<Rightarrow> True | Some e \<Rightarrow>
          raised r2 = Some (HTTPException 500 (PStr (''Failed to create/update vector store: '' @ str_exn e)))) evs2"
        by blast
      show ?thesis
      proof (cases r2)
        case (Inl e2)
        with Inr False inv cu assms have "r = Inl e2" "st' = st2"
          by (auto simp: process_upload_def)
        with c1 c2 p2 Inr Inl show ?thesis
          by (auto simp: raised_def list_all_iff split: option.splits)
      next
        case (Inr vs)
        obtain r3 st3 where ie: "initialize_engines C vs st2 = (r3, st3)"
          by (cases "initialize_engines C vs st2")
        from initialize_engines_calls [OF ie] obtain evs3 where
          c3: "calls st3 = calls st2 @ evs3" and
          p3: "list_all (\<lambda>ev. snd ev = None \<or> raised r3 = snd ev) evs3"
          by blast
        from Inr \<open>r1 = Inr chunks\<close> False inv cu ie assms
        have "st' = st3" "raised r = raised r3" "\<And>e. r3 = Inl e \<Longrightarrow> r = Inl e"
          by (auto simp: process_upload_def raised_def split: sum.splits)
        with c1 c2 c3 p2 p3 Inr \<open>r1 = Inr chunks\<close> show ?thesis
          by (auto simp: raised_def list_all_iff split: option.splits sum.splits)
      qed
    qed
  qed
qed

lemma upload_document_wraps:
  assumes "upload_document C upl st = (r, st')"
  shows "\<exists>evs. calls st' = calls st @ evs \<and> wraps True r evs"
proof -
  obtain r0 where tr: "upload_try C upl st = (r0, st')" and
    r: "r = (case r0 of Inl (Exception m) \<Rightarrow> Inl (HTTPException 500 (PStr (''Upload failed: '' @ m))) | _ \<Rightarrow> r0)"
    using assms by (auto simp: upload_document_def str_exn_def split: prod.splits sum.splits exn.splits)
  have "\<exists>evs. calls st' = calls st @ evs \<and>
     list_all (\<lambda>ev. case snd ev of None \<Rightarrow> True | Some e \<Rightarrow>
        r0 = Inl e \<or>
        r0 = Inl (HTTPException 500 (PStr (''Failed to create/update vector store: '' @ str_exn e)))) evs"
  proof (cases "open_wb (fs st) (os_path_join UPLOAD_DIR (filename upl)) (content upl)")
    case (Inl e)
    with tr have "st' = st"
      by (auto simp: upload_try_def Let_def split: if_splits)
    then show ?thesis by simp
  next
    case (Inr fs1)
    show ?thesis
    proof (cases "file_extension upl \<in> set [''.pdf'', ''.txt'']")
      case False
      with tr have "st' = st"
        by (auto simp: upload_try_def Let_def split: if_splits)
      then show ?thesis by simp
    next
      case True
      with tr Inr have "process_upload C upl (os_path_join UPLOAD_DIR (filename upl))
          (st\<lparr>fs := fs1\<rparr>) = (r0, st')"
        by (auto simp: upload_try_def Let_def split: if_splits)
      from process_upload_calls [OF this] show ?thesis by simp
    qed
  qed
  then obtain evs where "calls st' = calls st @ evs" and
    p: "list_all (\<lambda>ev. case snd ev of None \<Rightarrow> True | Some e \<Rightarrow>
        r0 = Inl e \<or>
        r0 = Inl (HTTPException 500 (PStr (''Failed to create/update vector store: '' @ str_exn e)))) evs"
    by blast
  moreover have "wraps True r evs"
    unfolding wraps_def
  proof (intro conjI allI impI)
    fix c m assume "(c, Some (Exception m)) \<in> set evs"
    with p have "r0 = Inl (Exception m) \<or>
        r0 = Inl (HTTPException 500 (PStr (''Failed to create/update vector store: '' @ m)))"
      by (auto simp: list_all_iff str_exn_def)
    with r show "\<exists>d. r = Inl (HTTPException 500 (PStr d)) \<and> suffix m d"
      by (auto simp: suffix_Cons)
  next
    fix c e assume "(c, Some e) \<in> set evs"
    with p have "r0 = Inl e \<or>
        r0 = Inl (HTTPException 500 (PStr (''Failed to create/update vector store: '' @ str_exn e)))"
      by (auto simp: list_all_iff)
    with r show "\<exists>code d. r = Inl (HTTPException code d)"
      by (cases e) auto
  next
    fix x show "r \<noteq> Inl (Exception x)"
      using r by (auto split: sum.splits exn.splits)
  next
    fix c e assume "(c, Some e) \<in> set evs"
    with p have "r0 = Inl e \<or>
        r0 = Inl (HTTPException 500 (PStr (''Failed to create/update vector store: '' @ str_exn e)))"
      by (auto simp: list_all_iff)
    show "(\<exists>d. r = Inl (HTTPException 500 (PStr d)) \<and> suffix (str_exn e) d) \<or>
        (True \<and> r = Inl e \<and> (\<exists>code d. e = HTTPException code d))"
    proof (cases "r0 = Inl e")
      case True
      show ?thesis
      proof (cases e)
        case (Exception m)
        with True r have "r = Inl (HTTPException 500 (PStr (''Upload failed: '' @ str_exn e)))"
          by (simp add: str_exn_def)
        then show ?thesis
          using suffix_literal [of "str_exn e" "''Upload failed: ''"] by blast
      next
        case (HTTPException code dt)
        with True r have "r = Inl e" by simp
        with HTTPException show ?thesis by blast
      qed
    next
      case False
      with \<open>r0 = Inl e \<or>
        r0 = Inl (HTTPException 500 (PStr (''Failed to create/update vector store: '' @ str_exn e)))\<close>
      have "r0 = Inl (HTTPException 500
          (PStr (''Failed to create/update vector store: '' @ str_exn e)))"
        by blast
      with r have "r = Inl (HTTPException 500
          (PStr (''Failed to create/update vector store: '' @ str_exn e)))"
        by simp
      then show ?thesis
        using suffix_literal [of "str_exn e" "''Failed to create/update vector store: ''"]
        by blast
    qed
  qed
  ultimately show ?thesis by blast
qed

lemma ask_question_wraps:
  assumes "ask_question C q st = (r, st')"
  shows "\<exists>evs. calls st' = calls st @ evs \<and> wraps False r evs"
proof (cases "rag_system st")
  case None
  with assms show ?thesis by (auto simp: ask_question_def no_documents_def intro!: wraps_nil)
next
  case (Some rag)
  obtain r1 st1 where inv: "invoke (AskQuestion rag (question q) (question_k q))
      (\<lambda>f c. rag_ask_question C f c rag (question q) (question_k q)) st = (r1, st1)"
    by (cases "invoke (AskQuestion rag (question q) (question_k q))
      (\<lambda>f c. rag_ask_question C f c rag (question q) (question_k q)) st")
  then have c1: "calls st1 = calls st @ [(AskQuestion rag (question q) (question_k q), raised r1)]"
    by (auto elim!: invokeE)
  show ?thesis
  proof (cases r1)
    case (Inl e)
    with Some inv assms have "st' = st1"
      "r = Inl (HTTPException 500 (PStr (''Question answering failed: '' @ str_exn e)))"
      by (simp_all add: ask_question_def)
    with c1 Inl wraps_call [of False "''Question answering failed: ''" e] show ?thesis
      by (simp add: raised_def)
  next
    case (Inr result)
    with Some inv assms have "st' = st1" "\<And>x. r \<noteq> Inl (Exception x)"
      by (auto simp: ask_question_def split: sum.splits)
    with c1 Inr show ?thesis by (simp add: raised_def wraps_none)
  qed
qed

lemma summarize_wraps:
  assumes "summarize C q st = (r, st')"
  shows "\<exists>evs. calls st' = calls st @ evs \<and> wraps False r evs"
proof (cases "rag_system st")
  case None
  with assms show ?thesis by (auto simp: summarize_def no_documents_def intro!: wraps_nil)
next
  case (Some rag)
  obtain r1 st1 where inv: "invoke (Summarize rag (topic q) (summary_type q) (summary_k q))
      (\<lambda>f c. rag_summarize C f c rag (topic q) (summary_type q) (summary_k q)) st = (r1, st1)"
    by (cases "invoke (Summarize rag (topic q) (summary_type q) (summary_k q))
      (\<lambda>f c. rag_summarize C f c rag (topic q) (summary_type q) (summary_k q)) st")
  then have c1: "calls st1 = calls st @ [(Summarize rag (topic q) (summary_type q) (summary_k q), raised r1)]"
    by (auto elim!: invokeE)
  show ?thesis
  proof (cases r1)
    case (Inl e)
    with Some inv assms have "st' = st1"
      "r = Inl (HTTPException 500 (PStr (''Summarization failed: '' @ str_exn e)))"
      by (simp_all add: summarize_def)
    with c1 Inl wraps_call [of False "''Summarization failed: ''" e] show ?thesis
      by (simp add: raised_def)
  next
    case (Inr result)
    with Some inv assms have "st' = st1" "\<And>x. r \<noteq> Inl (Exception x)"
      by (auto simp: summarize_def split: sum.splits)
    with c1 Inr show ?thesis by (simp add: raised_def wraps_none)
  qed
qed

lemma get_definitions_wraps:
  assumes "get_definitions C q st = (r, st')"
  shows "\<exists>evs. calls st' = calls st @ evs \<and> wraps False r evs"
proof (cases "rag_system st")
  case None
  with assms show ?thesis by (auto simp: get_definitions_def no_documents_def intro!: wraps_nil)
next
  case (Some rag)
  obtain r1 st1 where inv: "invoke (ExtractDefinitions rag q)
      (\<lambda>f c. rag_extract_definitions C f c rag q) st = (r1, st1)"
    by (cases "invoke (ExtractDefinitions rag q)
      (\<lambda>f c. rag_extract_definitions C f c rag q) st")
  then have c1: "calls st1 = calls st @ [(ExtractDefinitions rag q, raised r1)]"
    by (auto elim!: invokeE)
  show ?thesis
  proof (cases r1)
    case (Inl e)
    with Some inv assms have "st' = st1"
      "r = Inl (HTTPException 500 (PStr (''Definition extraction failed: '' @ str_exn e)))"
      by (simp_all add: get_definitions_def)
    with c1 Inl wraps_call [of False "''Definition extraction failed: ''" e] show ?thesis
      by (simp add: raised_def)
  next
    case (Inr result)
    with Some inv assms have "st' = st1" "\<And>x. r \<noteq> Inl (Exception x)"
      by (auto simp: get_definitions_def split: sum.splits)
    with c1 Inr show ?thesis by (simp add: raised_def wraps_none)
  qed
qed

lemma generate_quiz_wraps:
  assumes "generate_quiz C q st = (r, st')"
  shows "\<exists>evs. calls st' = calls st @ evs \<and> wraps True r evs"
proof (cases "quiz_generator st")
  case None
  with assms show ?thesis by (auto simp: generate_quiz_def no_documents_def intro!: wraps_nil)
next
  case (Some gen)
  obtain r1 st1 where inv: "invoke (GenerateQuiz gen (quiz_topic q) (num_questions q) (difficulty q))
      (\<lambda>f c. quiz_generate_quiz C f c gen (quiz_topic q) (num_questions q) (difficulty q)) st
      = (r1, st1)"
    by (cases "invoke (GenerateQuiz gen (quiz_topic q) (num_questions q) (difficulty q))
      (\<lambda>f c. quiz_generate_quiz C f c gen (quiz_topic q) (num_questions q) (difficulty q)) st")
  then have c1: "calls st1 = calls st @
      [(GenerateQuiz gen (quiz_topic q) (num_questions q) (difficulty q), raised r1)]"
    by (auto elim!: invokeE)
  show ?thesis
  proof (cases r1)
    case (Inl e)
    show ?thesis
    proof (cases e)
      case (HTTPException code d)
      with Inl Some inv assms have "st' = st1" "r = Inl (HTTPException code d)"
        by (simp_all add: generate_quiz_def quiz_try_def)
      with c1 Inl HTTPException wraps_through [of code d] show ?thesis
        by (simp add: raised_def)
    next
      case (Exception m)
      with Inl Some inv assms have "st' = st1"
        "r = Inl (HTTPException 500 (PStr (''Quiz generation failed: '' @ str_exn (Exception m))))"
        by (simp_all add: generate_quiz_def quiz_try_def)
      with c1 Inl Exception wraps_call [of True "''Quiz generation failed: ''" "Exception m"]
      show ?thesis by (simp add: raised_def)
    qed
  next
    case (Inr result)
    with Some inv assms have "st' = st1" "\<And>x. r \<noteq> Inl (Exception x)"
      by (auto simp: generate_quiz_def quiz_try_def HTTPException_500_def
          split: sum.splits option.splits exn.splits)
    with c1 Inr show ?thesis by (simp add: raised_def wraps_none)
  qed
qed

lemma grade_quiz_wraps:
  assumes "grade_quiz C q st = (r, st')"
  shows "\<exists>evs. calls st' = calls st @ evs \<and> wraps False r evs"
proof (cases "quiz_generator st")
  case None
  with assms show ?thesis by (auto simp: grade_quiz_def no_documents_def intro!: wraps_nil)
next
  case (Some rag)
  obtain r1 st1 where inv: "invoke (GradeQuiz rag (questions q) (user_answers q))
      (\<lambda>f c. quiz_grade_quiz C f c rag (questions q) (user_answers q)) st = (r1, st1)"
    by (cases "invoke (GradeQuiz rag (questions q) (user_answers q))
      (\<lambda>f c. quiz_grade_quiz C f c rag (questions q) (user_answers q)) st")
  then have c1: "calls st1 = calls st @ [(GradeQuiz rag (questions q) (user_answers q), raised r1)]"
    by (auto elim!: invokeE)
  show ?thesis
  proof (cases r1)
    case (Inl e)
    with Some inv assms have "st' = st1"
      "r = Inl (HTTPException 500 (PStr (''Quiz grading failed: '' @ str_exn e)))"
      by (simp_all add: grade_quiz_def)
    with c1 Inl wraps_call [of False "''Quiz grading failed: ''" e] show ?thesis
      by (simp add: raised_def)
  next
    case (Inr result)
    with Some inv assms have "st' = st1" "\<And>x. r \<noteq> Inl (Exception x)"
      by (auto simp: grade_quiz_def split: sum.splits)
    with c1 Inr show ?thesis by (simp add: raised_def wraps_none)
  qed
qed

lemma no_call_wraps:
  "root st = (r, st') \<Longrightarrow> calls st' = calls st @ [] \<and> wraps False r []"
  "list_documents st = (r, st') \<Longrightarrow> calls st' = calls st @ [] \<and> wraps False r []"
  "reset_system st = (r, st') \<Longrightarrow> calls st' = calls st @ [] \<and> wraps False r []"
  by (auto simp: root_def list_documents_def reset_system_def reset_try_def wraps_def
      split: option.splits prod.splits sum.splits)

lemma route_wraps:
  assumes "route C req st = (r, st')"
  shows "\<exists>evs. calls st' = calls st @ evs \<and> wraps (reraises_http req) r evs"
proof (cases req)
  case GetRoot
  with assms no_call_wraps(1) [of st r st'] show ?thesis by auto
next
  case (PostUpload upl)
  with assms show ?thesis by (simp add: upload_document_wraps)
next
  case (PostAsk q)
  with assms show ?thesis by (simp add: ask_question_wraps)
next
  case (PostSummarize q)
  with assms show ?thesis by (simp add: summarize_wraps)
next
  case (PostDefinitions t)
  with assms show ?thesis by (simp add: get_definitions_wraps)
next
  case (PostQuizGenerate q)
  with assms show ?thesis by (simp add: generate_quiz_wraps)
next
  case (PostQuizGrade q)
  with assms show ?thesis by (simp add: grade_quiz_wraps)
next
  case GetDocuments
  with assms no_call_wraps(2) [of st r st'] show ?thesis by auto
next
  case DeleteReset
  with assms no_call_wraps(3) [of st r st'] show ?thesis by auto
qed

text \<open>
  Claim C6, as amended. Whatever the route and the request, nothing but an \<^verbatim>\<open>HTTPException\<close>
  leaves a handler. When a collaborator call of the request raised an exception, the handler
  raises an HTTP 500 whose detail ends with the \<^verbatim>\<open>str\<close> of that exception, its message;
  or else the exception is an \<^verbatim>\<open>HTTPException\<close>, the route is \<^verbatim>\<open>/upload\<close> or
  \<^verbatim>\<open>/quiz/generate\<close>, and the handler raises that same \<^verbatim>\<open>HTTPException\<close>.
\<close>

theorem collaborator_exception_is_server_error:
  assumes "route C req st = (r, st')"
  shows "(\<forall>x. r \<noteq> Inl (Exception x)) \<and>
     (\<forall>c m. (c, Some (Exception m)) \<in> set (new_calls st st') \<longrightarrow>
        (\<exists>d. r = Inl (HTTPException 500 (PStr d)) \<and> suffix m d)) \<and>
     (\<forall>c e. (c, Some e) \<in> set (new_calls st st') \<longrightarrow>
        (\<exists>code d. r = Inl (HTTPException code d))) \<and>
     (\<forall>c e. (c, Some e) \<in> set (new_calls st st') \<longrightarrow>
        (\<exists>d. r = Inl (HTTPException 500 (PStr d)) \<and> suffix (str_exn e) d) \<or>
        (reraises_http req \<and> r = Inl e \<and> (\<exists>code d. e = HTTPException code d)))"
proof -
  from route_wraps [OF assms] obtain evs where "calls st' = calls st @ evs"
    "wraps (reraises_http req) r evs"
    by blast
  then show ?thesis by (simp add: new_calls_def wraps_def)
qed

lemma unreadable_run:
  "route unreadable (PostUpload txt_file) sample_state =
     (Inl (HTTPException 500 (PStr ''Upload failed: cannot read file'')),
      sample_state\<lparr>fs := saved_fs, collab_state := 1,
        calls := [(ProcessDocuments ''data/uploads/notes.txt'', Some (Exception ''cannot read file''))]\<rparr>)"
  by code_simp

theorem collaborator_exception_is_server_error_witness:
  "route unreadable (PostUpload txt_file) sample_state =
     (Inl (HTTPException 500 (PStr ''Upload failed: cannot read file'')),
      sample_state\<lparr>fs := saved_fs, collab_state := 1,
        calls := [(ProcessDocuments ''data/uploads/notes.txt'', Some (Exception ''cannot read file''))]\<rparr>) \<and>
   (ProcessDocuments ''data/uploads/notes.txt'', Some (Exception ''cannot read file'')) \<in>
     set (new_calls sample_state (sample_state\<lparr>fs := saved_fs, collab_state := 1,
        calls := [(ProcessDocuments ''data/uploads/notes.txt'', Some (Exception ''cannot read file''))]\<rparr>)) \<and>
   suffix ''cannot read file'' ''Upload failed: cannot read file''"
proof -
  have mem: "(ProcessDocuments ''data/uploads/notes.txt'', Some (Exception ''cannot read file'')) \<in>
     set (new_calls sample_state (sample_state\<lparr>fs := saved_fs, collab_state := 1,
        calls := [(ProcessDocuments ''data/uploads/notes.txt'', Some (Exception ''cannot read file''))]\<rparr>))"
    by (simp add: new_calls_def sample_state_simps)
  from collaborator_exception_is_server_error [OF unreadable_run] mem
  have "\<exists>d. (Inl (HTTPException 500 (PStr ''Upload failed: cannot read file'')) :: exn + pyval)
      = Inl (HTTPException 500 (PStr d)) \<and> suffix ''cannot read file'' d"
    by blast
  then have "suffix ''cannot read file'' ''Upload failed: cannot read file''" by simp
  with unreadable_run mem show ?thesis by blast
qed

text \<open>
  The claim as it is written fails for an \<^verbatim>\<open>HTTPException\<close> raised inside a collaborator:
  \<^verbatim>\<open>upload_document\<close> and \<^verbatim>\<open>generate_quiz\<close> re-raise every \<^verbatim>\<open>HTTPException\<close> unchanged
  (\<^verbatim>\<open>except HTTPException: raise\<close>). Here ingestion raises a 404, and the 404 is the answer.
\<close>

theorem collaborator_http_exception_passes_through:
  "fst (route http_raising (PostUpload txt_file) sample_state) =
     Inl (HTTPException 404 (PStr ''no such document'')) \<and>
   new_calls sample_state (snd (route http_raising (PostUpload txt_file) sample_state)) =
     [(ProcessDocuments ''data/uploads/notes.txt'', Some (HTTPException 404 (PStr ''no such document'')))]"
  by code_simp

section \<open>Creating or extending the index\<close>




lemma upload_document_success:
  assumes "upload_document C upl st = (Inr r, st')"
  obtains fs1 where "file_extension upl \<in> {''.pdf'', ''.txt''}"
    and "open_wb (fs st) (os_path_join UPLOAD_DIR (filename upl)) (content upl) = Inr fs1"
    and "process_upload C upl (os_path_join UPLOAD_DIR (filename upl)) (st\<lparr>fs := fs1\<rparr>) = (Inr r, st')"
  using assms
  by (auto simp: upload_document_def upload_try_def Let_def
      split: prod.splits sum.splits exn.splits if_splits)













section \<open>Paths below the upload directory\<close>

lemma split_sep_plain: "CHR ''/'' \<notin> set n \<Longrightarrow> split_sep n = [n]"
  by (induction n) auto

lemma join_upload: "n = [] \<or> hd n \<noteq> CHR ''/'' \<Longrightarrow> os_path_join UPLOAD_DIR n = ''data/uploads/'' @ n"
  by (auto simp: os_path_join_def UPLOAD_DIR_def)

lemma valid_name_join: "valid_name n \<Longrightarrow> os_path_join UPLOAD_DIR n = ''data/uploads/'' @ n"
  by (rule join_upload) (cases n; auto simp: valid_name_def)

lemma lookup_nonempty: "lookup fsys (p @ [n]) = map_of (nodes fsys) (p @ [n])"
  by (simp add: lookup_def)

lemma stat_upload_dir:
  "stat fsys UPLOAD_DIR =
     (case lookup fsys (cwd fsys @ [''data'']) of
        None \<Rightarrow> Inl ENOENT
      | Some (File _) \<Rightarrow> Inl ENOTDIR
      | Some Dir \<Rightarrow>
          (case lookup fsys (upload_path fsys) of
             None \<Rightarrow> Inl ENOENT
           | Some nd \<Rightarrow> Inr (upload_path fsys, nd)))"
  by (simp add: stat_def resolve_parent_def UPLOAD_DIR_def upload_path_def
      split: option.splits node.splits)

lemma stat_upload_entry:
  assumes "valid_name n"
  shows "stat fsys (os_path_join UPLOAD_DIR n) =
     (case lookup fsys (cwd fsys @ [''data'']) of
        None \<Rightarrow> Inl ENOENT
      | Some (File _) \<Rightarrow> Inl ENOTDIR
      | Some Dir \<Rightarrow>
          (case lookup fsys (upload_path fsys) of
             None \<Rightarrow> Inl ENOENT
           | Some (File _) \<Rightarrow> Inl ENOTDIR
           | Some Dir \<Rightarrow>
               (case lookup fsys (upload_path fsys @ [n]) of
                  None \<Rightarrow> Inl ENOENT
                | Some nd \<Rightarrow> Inr (upload_path fsys @ [n], nd))))"
  using assms unfolding valid_name_join [OF assms]
  by (simp add: stat_def resolve_parent_def upload_path_def valid_name_def split_sep_plain
      split: option.splits node.splits)

lemma no_null_upload_entry:
  assumes "valid_name n"
  shows "CHR 0x00 \<notin> set (os_path_join UPLOAD_DIR n)"
  using assms unfolding valid_name_join [OF assms] by (simp add: valid_name_def)

lemma map_of_remove_key:
  "map_of (filter (\<lambda>kv. fst kv \<noteq> q) xs) k = (if k = q then None else map_of xs k)"
  by (induction xs) auto

lemma map_of_remove_tree:
  "map_of (filter (\<lambda>kv. \<not> prefix q (fst kv)) xs) k = (if prefix q k then None else map_of xs k)"
  by (induction xs) auto

lemma no_null_upload_dir: "CHR 0x00 \<notin> set UPLOAD_DIR"
  by (simp add: UPLOAD_DIR_def)

lemma listdir_upload:
  "os_listdir fsys UPLOAD_DIR = Inr names \<longleftrightarrow>
     upload_dir_ok fsys \<and>
     names = remdups (map last
       (filter (\<lambda>q. q \<noteq> [] \<and> butlast q = upload_path fsys) (map fst (nodes fsys))))"
  by (auto simp: os_listdir_def stat_upload_dir upload_dir_ok_def no_null_upload_dir
      split: option.splits node.splits sum.splits prod.splits)

lemma listed_iff:
  "n \<in> set (remdups (map last (filter (\<lambda>q. q \<noteq> [] \<and> butlast q = p) (map fst (nodes fsys)))))
     \<longleftrightarrow> lookup fsys (p @ [n]) \<noteq> None"
proof -
  have "\<And>q. (q \<noteq> [] \<and> butlast q = p \<and> last q = n) \<longleftrightarrow> q = p @ [n]"
    by (auto simp: snoc_eq_iff_butlast)
  then show ?thesis
    by (auto simp: lookup_nonempty map_of_eq_None_iff image_iff) (metis fst_conv)+
qed

lemma wf_listed:
  assumes "wf_filesys fsys" and "lookup fsys (p @ [n]) \<noteq> None"
  shows "valid_name n"
proof -
  from assms(2) obtain nd where "(p @ [n], nd) \<in> set (nodes fsys)"
    by (auto simp: lookup_nonempty dest: map_of_SomeD)
  with assms(1) have "list_all valid_name (p @ [n])"
    by (auto simp: wf_filesys_def list_all_iff)
  then show ?thesis by simp
qed

lemma isfile_upload_entry:
  assumes "valid_name n" and "upload_dir_ok fsys"
  shows "os_path_isfile fsys (os_path_join UPLOAD_DIR n) \<longleftrightarrow>
     (\<exists>c. lookup fsys (upload_path fsys @ [n]) = Some (File c))"
  using assms
  by (auto simp: os_path_isfile_def no_null_upload_entry stat_upload_entry upload_dir_ok_def
      split: option.splits node.splits sum.splits)

lemma remove_upload_entry:
  assumes "valid_name n" and "upload_dir_ok fsys"
    and "lookup fsys (upload_path fsys @ [n]) = Some (File c)"
  shows "os_remove fsys (os_path_join UPLOAD_DIR n) =
     Inr (fsys\<lparr>nodes := filter (\<lambda>kv. fst kv \<noteq> upload_path fsys @ [n]) (nodes fsys)\<rparr>)"
  using assms
  by (auto simp: os_remove_def no_null_upload_entry stat_upload_entry upload_dir_ok_def
      split: option.splits node.splits sum.splits)

lemma clear_uploads_spec:
  assumes "list_all valid_name names" and "upload_dir_ok fsys"
  shows "\<exists>fs1. clear_uploads names fsys = (Inr (), fs1) \<and> cwd fs1 = cwd fsys \<and>
     set (nodes fs1) \<subseteq> set (nodes fsys) \<and>
     (\<forall>p. lookup fs1 p =
        (if (\<exists>n \<in> set names. p = upload_path fsys @ [n]) \<and> (\<exists>c. lookup fsys p = Some (File c))
         then None else lookup fsys p))"
  using assms
proof (induction names arbitrary: fsys)
  case Nil
  then show ?case by simp
next
  case (Cons n names)
  then have vn: "valid_name n" and vns: "list_all valid_name names" by simp_all
  show ?case
  proof (cases "\<exists>c. lookup fsys (upload_path fsys @ [n]) = Some (File c)")
    case False
    with vn Cons.prems(2) have nf: "\<not> os_path_isfile fsys (os_path_join UPLOAD_DIR n)"
      by (simp add: isfile_upload_entry)
    from Cons.IH [OF vns Cons.prems(2)] obtain fs1 where
      "clear_uploads names fsys = (Inr (), fs1)" "cwd fs1 = cwd fsys"
      "set (nodes fs1) \<subseteq> set (nodes fsys)"
      "\<forall>p. lookup fs1 p =
        (if (\<exists>n \<in> set names. p = upload_path fsys @ [n]) \<and> (\<exists>c. lookup fsys p = Some (File c))
         then None else lookup fsys p)"
      by blast
    with nf False show ?thesis by auto
  next
    case True
    then obtain c where f: "lookup fsys (upload_path fsys @ [n]) = Some (File c)" by blast
    define fs0 where "fs0 = fsys\<lparr>nodes := filter (\<lambda>kv. fst kv \<noteq> upload_path fsys @ [n]) (nodes fsys)\<rparr>"
    have isf: "os_path_isfile fsys (os_path_join UPLOAD_DIR n)"
      using vn Cons.prems(2) True by (simp add: isfile_upload_entry)
    have rm: "os_remove fsys (os_path_join UPLOAD_DIR n) = Inr fs0"
      unfolding fs0_def by (rule remove_upload_entry [OF vn Cons.prems(2) f])
    have cw: "cwd fs0 = cwd fsys" by (simp add: fs0_def)
    then have up: "upload_path fs0 = upload_path fsys" by (simp add: upload_path_def)
    have lk: "\<And>p. lookup fs0 p = (if p = upload_path fsys @ [n] then None else lookup fsys p)"
      by (auto simp: lookup_def fs0_def map_of_remove_key)
    have ok: "upload_dir_ok fs0"
      using Cons.prems(2) by (simp add: upload_dir_ok_def lk up cw) (simp add: upload_path_def)
    from Cons.IH [OF vns ok] obtain fs1 where
      1: "clear_uploads names fs0 = (Inr (), fs1)" and 2: "cwd fs1 = cwd fs0"
      and 3: "set (nodes fs1) \<subseteq> set (nodes fs0)"
      and 4: "\<forall>p. lookup fs1 p =
        (if (\<exists>n \<in> set names. p = upload_path fs0 @ [n]) \<and> (\<exists>c. lookup fs0 p = Some (File c))
         then None else lookup fs0 p)"
      by blast
    have "clear_uploads (n # names) fsys = (Inr (), fs1)"
      using isf rm 1 by simp
    moreover have "cwd fs1 = cwd fsys" using 2 cw by simp
    moreover have "set (nodes fs1) \<subseteq> set (nodes fsys)"
      using 3 by (auto simp: fs0_def)
    moreover have "\<forall>p. lookup fs1 p =
        (if (\<exists>m \<in> set (n # names). p = upload_path fsys @ [m]) \<and> (\<exists>c. lookup fsys p = Some (File c))
         then None else lookup fsys p)"
      using 4 f by (auto simp: up lk)
    ultimately show ?thesis by blast
  qed
qed

lemma stat_vector_store:
  "stat fsys (os_path_join ''data/vector_store'' VECTOR_STORE_NAME) =
     (case lookup fsys (cwd fsys @ [''data'']) of
        None \<Rightarrow> Inl ENOENT
      | Some (File _) \<Rightarrow> Inl ENOTDIR
      | Some Dir \<Rightarrow>
          (case lookup fsys (cwd fsys @ [''data'', ''vector_store'']) of
             None \<Rightarrow> Inl ENOENT
           | Some (File _) \<Rightarrow> Inl ENOTDIR
           | Some Dir \<Rightarrow>
               (case lookup fsys (vector_store_path fsys) of
                  None \<Rightarrow> Inl ENOENT
                | Some nd \<Rightarrow> Inr (vector_store_path fsys, nd))))"
  by (simp add: stat_def resolve_parent_def os_path_join_def VECTOR_STORE_NAME_def
      vector_store_path_def split: option.splits node.splits)

lemma clear_vector_store_spec:
  assumes "clear_vector_store fs1 = Inr fs2"
  shows "cwd fs2 = cwd fs1 \<and> set (nodes fs2) \<subseteq> set (nodes fs1) \<and>
     (\<forall>p. \<not> prefix (vector_store_path fs1) p \<longrightarrow> lookup fs2 p = lookup fs1 p) \<and>
     \<not> os_path_exists fs2 (os_path_join ''data/vector_store'' VECTOR_STORE_NAME)"
proof (cases "os_path_exists fs1 (os_path_join ''data/vector_store'' VECTOR_STORE_NAME)")
  case False
  with assms show ?thesis by (simp add: clear_vector_store_def)
next
  case True
  with assms have rm: "shutil_rmtree fs1 (os_path_join ''data/vector_store'' VECTOR_STORE_NAME) = Inr fs2"
    by (simp add: clear_vector_store_def)
  then have fs2: "fs2 = fs1\<lparr>nodes := filter (\<lambda>kv. \<not> prefix (vector_store_path fs1) (fst kv)) (nodes fs1)\<rparr>"
    by (auto simp: shutil_rmtree_def stat_vector_store split: if_splits option.splits node.splits)
  have lk: "\<And>p. lookup fs2 p = (if p \<noteq> [] \<and> prefix (vector_store_path fs1) p then None else lookup fs1 p)"
    by (auto simp: fs2 lookup_def map_of_remove_tree)
  have "lookup fs2 (vector_store_path fs2) = None"
    by (simp add: lk) (simp add: fs2 vector_store_path_def)
  then have "\<not> os_path_exists fs2 (os_path_join ''data/vector_store'' VECTOR_STORE_NAME)"
    by (simp add: os_path_exists_def stat_vector_store split: option.splits node.splits)
  moreover have "cwd fs2 = cwd fs1" "set (nodes fs2) \<subseteq> set (nodes fs1)"
    by (auto simp: fs2)
  ultimately show ?thesis using lk by auto
qed

lemma upload_not_under_vector_store [simp]:
  "\<not> prefix (vector_store_path fsys) (upload_path fsys)"
  "\<not> prefix (vector_store_path fsys) (upload_path fsys @ [n])"
  "\<not> prefix (vector_store_path fsys) (cwd fsys @ [''data''])"
  by (simp_all add: vector_store_path_def upload_path_def)

lemma reset_try_success:
  assumes "wf_filesys (fs st)" and "reset_try st = (Inr r, st')"
  shows "uploaded_files (fs st') = Inr [] \<and>
     \<not> os_path_exists (fs st') (os_path_join ''data/vector_store'' VECTOR_STORE_NAME) \<and>
     vector_store st' = None \<and> rag_system st' = None \<and> quiz_generator st' = None"
proof -
  from assms(2) obtain names fs1 fs2 where
    ls: "os_listdir (fs st) UPLOAD_DIR = Inr names" and
    cu: "clear_uploads names (fs st) = (Inr (), fs1)" and
    cv: "clear_vector_store fs1 = Inr fs2" and
    st': "st' = st\<lparr>fs := fs2, vector_store := None, rag_system := None, quiz_generator := None\<rparr>"
    by (auto simp: reset_try_def split: sum.splits prod.splits)
  let ?U = "upload_path (fs st)"
  from ls have ok: "upload_dir_ok (fs st)" and
    names: "names = remdups (map last
       (filter (\<lambda>q. q \<noteq> [] \<and> butlast q = ?U) (map fst (nodes (fs st)))))"
    by (simp_all add: listdir_upload)
  have listed: "\<And>n. n \<in> set names \<longleftrightarrow> lookup (fs st) (?U @ [n]) \<noteq> None"
    unfolding names by (rule listed_iff)
  have valid: "list_all valid_name names"
    using wf_listed [OF assms(1)] listed by (auto simp: list_all_iff)
  from clear_uploads_spec [OF valid ok] cu have
    cw1: "cwd fs1 = cwd (fs st)" and sub1: "set (nodes fs1) \<subseteq> set (nodes (fs st))" and
    lk1: "\<And>p. lookup fs1 p =
        (if (\<exists>n \<in> set names. p = ?U @ [n]) \<and> (\<exists>c. lookup (fs st) p = Some (File c))
         then None else lookup (fs st) p)"
    by auto
  from clear_vector_store_spec [OF cv] have
    cw2: "cwd fs2 = cwd fs1" and sub2: "set (nodes fs2) \<subseteq> set (nodes fs1)" and
    lk2: "\<And>p. \<not> prefix (vector_store_path fs1) p \<Longrightarrow> lookup fs2 p = lookup fs1 p" and
    gone: "\<not> os_path_exists fs2 (os_path_join ''data/vector_store'' VECTOR_STORE_NAME)"
    by auto
  have U2: "upload_path fs2 = ?U" and V1: "vector_store_path fs1 = vector_store_path (fs st)"
    using cw1 cw2 by (simp_all add: upload_path_def vector_store_path_def)
  have U1: "upload_path fs1 = ?U" using cw1 by (simp add: upload_path_def)
  have keep: "\<And>n. lookup fs2 (?U @ [n]) = lookup fs1 (?U @ [n])"
    by (rule lk2) (simp add: cw1 vector_store_path_def upload_path_def)
  have ok1: "upload_dir_ok fs1"
    using ok by (simp add: upload_dir_ok_def lk1 U1 cw1)
  have "lookup fs2 (cwd fs1 @ [''data'']) = lookup fs1 (cwd fs1 @ [''data''])"
    "lookup fs2 (upload_path fs1) = lookup fs1 (upload_path fs1)"
    by (rule lk2, simp add: vector_store_path_def upload_path_def)+
  with ok1 have ok2: "upload_dir_ok fs2"
    by (simp add: upload_dir_ok_def cw2 U1 U2)
  have wf2: "wf_filesys fs2"
    using assms(1) sub1 sub2 cw1 cw2 by (auto simp: wf_filesys_def list_all_iff)
  obtain names2 where ls2: "os_listdir fs2 UPLOAD_DIR = Inr names2"
    using ok2 by (simp add: listdir_upload)
  then have names2: "names2 = remdups (map last
       (filter (\<lambda>q. q \<noteq> [] \<and> butlast q = upload_path fs2) (map fst (nodes fs2))))"
    by (simp add: listdir_upload)
  have listed2: "\<And>n. n \<in> set names2 \<longleftrightarrow> lookup fs2 (?U @ [n]) \<noteq> None"
    unfolding names2 listed_iff U2 by (rule refl)
  have "\<not> os_path_isfile fs2 (os_path_join UPLOAD_DIR n)" if "n \<in> set names2" for n
  proof -
    from that have nn: "lookup fs2 (?U @ [n]) \<noteq> None" by (simp add: listed2)
    then have v: "valid_name n" by (rule wf_listed [OF wf2])
    from nn have "lookup fs1 (?U @ [n]) \<noteq> None" by (simp add: keep)
    then have "\<not> (\<exists>c. lookup fs1 (?U @ [n]) = Some (File c))"
      by (auto simp: lk1 listed split: if_splits)
    then show ?thesis
      using v ok2 by (simp add: isfile_upload_entry U2 keep)
  qed
  then have "uploaded_files fs2 = Inr []"
    by (simp add: uploaded_files_def ls2 filter_empty_conv)
  with gone st' show ?thesis by simp
qed

lemma open_wb_upload_entry:
  assumes "valid_name n"
  shows "open_wb fsys (os_path_join UPLOAD_DIR n) c = Inr fs1 \<longleftrightarrow>
     upload_dir_ok fsys \<and> lookup fsys (upload_path fsys @ [n]) \<noteq> Some Dir \<and>
     fs1 = fsys\<lparr>nodes := (upload_path fsys @ [n], File c) #
             filter (\<lambda>kv. fst kv \<noteq> upload_path fsys @ [n]) (nodes fsys)\<rparr>"
proof -
  have p: "os_path_join UPLOAD_DIR n = ''data/uploads/'' @ n"
    by (rule valid_name_join [OF assms])
  have nn: "CHR 0x00 \<notin> set (os_path_join UPLOAD_DIR n)"
    by (rule no_null_upload_entry [OF assms])
  have rp: "resolve_parent fsys (''data/uploads/'' @ n) =
     (case lookup fsys (cwd fsys @ [''data'']) of
        None \<Rightarrow> Inl ENOENT
      | Some (File _) \<Rightarrow> Inl ENOTDIR
      | Some Dir \<Rightarrow>
          (case lookup fsys (upload_path fsys) of
             None \<Rightarrow> Inl ENOENT
           | Some (File _) \<Rightarrow> Inl ENOTDIR
           | Some Dir \<Rightarrow> Inr (upload_path fsys)))"
    using assms
    by (simp add: resolve_parent_def upload_path_def valid_name_def split_sep_plain
        split: option.splits node.splits)
  have lst: "last (split_sep (''data/uploads/'' @ n)) = n"
    using assms by (simp add: valid_name_def split_sep_plain)
  have ne: "''data/uploads/'' @ n \<noteq> []" by simp
  have n: "n \<noteq> []" "CHR ''/'' \<notin> set n"
    using assms by (simp_all add: valid_name_def)
  then have "last n \<noteq> CHR ''/''"
    by (metis last_in_set)
  with n have sl: "last (''data/uploads/'' @ n) \<noteq> CHR ''/''"
    by simp
  have nn': "CHR 0x00 \<notin> set (''data/uploads/'' @ n)"
    using nn unfolding p .
  show ?thesis
    unfolding p open_wb_def if_not_P [OF nn'] if_not_P [OF ne] if_not_P [OF sl] rp lst
    using assms
    by (auto simp: upload_dir_ok_def valid_name_def Let_def
        split: option.splits node.splits sum.splits)
qed

lemma saved_entry:
  assumes "valid_name n"
    and "open_wb fsys (os_path_join UPLOAD_DIR n) c = Inr fs1"
  shows "read_file fs1 (os_path_join UPLOAD_DIR n) = Some c"
    and "\<exists>files. uploaded_files fs1 = Inr files \<and> n \<in> set files"
    and "cwd fs1 = cwd fsys"
proof -
  let ?U = "upload_path fsys"
  from assms have ok: "upload_dir_ok fsys" and
    fs1: "fs1 = fsys\<lparr>nodes := (?U @ [n], File c) # filter (\<lambda>kv. fst kv \<noteq> ?U @ [n]) (nodes fsys)\<rparr>"
    by (simp_all add: open_wb_upload_entry)
  show cw: "cwd fs1 = cwd fsys" by (simp add: fs1)
  then have U1: "upload_path fs1 = ?U" by (simp add: upload_path_def)
  have lk: "\<And>p. lookup fs1 p = (if p = ?U @ [n] then Some (File c) else lookup fsys p)"
    by (auto simp: lookup_def fs1 map_of_remove_key)
  have ok1: "upload_dir_ok fs1"
    using ok by (simp add: upload_dir_ok_def lk U1 cw) (simp add: upload_path_def)
  have isf: "os_path_isfile fs1 (os_path_join UPLOAD_DIR n)"
    using assms(1) ok1 by (simp add: isfile_upload_entry U1 lk)
  show "read_file fs1 (os_path_join UPLOAD_DIR n) = Some c"
    using assms(1) ok1
    by (simp add: read_file_def no_null_upload_entry stat_upload_entry U1 lk upload_dir_ok_def)
  obtain names where ls: "os_listdir fs1 UPLOAD_DIR = Inr names"
    using ok1 by (simp add: listdir_upload)
  then have names: "names = remdups (map last
       (filter (\<lambda>q. q \<noteq> [] \<and> butlast q = upload_path fs1) (map fst (nodes fs1))))"
    by (simp add: listdir_upload)
  have "lookup fs1 (upload_path fs1 @ [n]) \<noteq> None" by (simp add: U1 lk)
  then have "n \<in> set names" unfolding names listed_iff .
  with ls isf show "\<exists>files. uploaded_files fs1 = Inr files \<and> n \<in> set files"
    by (simp add: uploaded_files_def)
qed


lemma index_step_raises:
  assumes "index_step C chunks st = (r, st')"
  shows "\<exists>evs. calls st' = calls st @ evs \<and> fs st' = fs st \<and>
     (\<forall>e. r = Inl e \<longrightarrow> (\<exists>c e'. (c, Some e') \<in> set evs))"
  using assms
  by (auto simp: index_step_def raised_def split: option.splits prod.splits sum.splits
      elim!: invokeE)

lemma create_or_update_raises:
  assumes "create_or_update C chunks st = (r, st')"
  shows "\<exists>evs. calls st' = calls st @ evs \<and> fs st' = fs st \<and>
     (\<forall>e. r = Inl e \<longrightarrow> (\<exists>c e'. (c, Some e') \<in> set evs))"
proof -
  obtain r0 where ix: "index_step C chunks st = (r0, st')" and
    r: "\<And>e. r = Inl e \<Longrightarrow> \<exists>e0. r0 = Inl e0"
    using assms by (auto simp: create_or_update_def split: prod.splits sum.splits)
  from index_step_raises [OF ix] r show ?thesis by blast
qed

lemma initialize_engines_raises:
  assumes "initialize_engines C vs st = (r, st')"
  shows "\<exists>evs. calls st' = calls st @ evs \<and> fs st' = fs st \<and>
     (\<forall>e. r = Inl e \<longrightarrow> (\<exists>c e'. (c, Some e') \<in> set evs))"
  using assms
  by (auto simp: initialize_engines_def raised_def split: option.splits prod.splits sum.splits
      elim!: invokeE)

lemma process_upload_steps:
  assumes "process_upload C upl p st = (r, st')"
  shows "\<exists>e evs. calls st' = calls st @ (ProcessDocuments p, e) # evs \<and> fs st' = fs st \<and>
     ((\<exists>k. r = Inr (upload_response (filename upl) k)) \<or>
      r = Inl (HTTPException 500 (PStr ''Failed to extract content from document'')) \<or>
      (\<exists>c e'. (c, Some e') \<in> set ((ProcessDocuments p, e) # evs)))"
proof -
  obtain r1 st1 where inv: "invoke (ProcessDocuments p) (\<lambda>f c. process_documents C f c p) st = (r1, st1)"
    by (cases "invoke (ProcessDocuments p) (\<lambda>f c. process_documents C f c p) st")
  then have c1: "calls st1 = calls st @ [(ProcessDocuments p, raised r1)]" and f1: "fs st1 = fs st"
    by (auto elim!: invokeE)
  show ?thesis
  proof (cases r1)
    case (Inl e)
    with inv assms have "st' = st1" "raised r1 = Some e"
      by (auto simp: process_upload_def raised_def)
    with c1 f1 show ?thesis by auto
  next
    case (Inr chunks)
    show ?thesis
    proof (cases "chunks = []")
      case True
      with Inr inv assms have "st' = st1"
        "r = Inl (HTTPException 500 (PStr ''Failed to extract content from document''))"
        by (auto simp: process_upload_def)
      with c1 f1 show ?thesis by auto
    next
      case False
      obtain r2 st2 where cu: "create_or_update C chunks st1 = (r2, st2)"
        by (cases "create_or_update C chunks st1")
      from create_or_update_raises [OF cu] obtain evs2 where
        c2: "calls st2 = calls st1 @ evs2" and f2: "fs st2 = fs st1" and
        e2: "\<And>e. r2 = Inl e \<Longrightarrow> \<exists>c e'. (c, Some e') \<in> set evs2"
        by blast
      show ?thesis
      proof (cases r2)
        case (Inl e)
        with Inr False inv cu assms have "st' = st2" by (auto simp: process_upload_def)
        moreover from e2 [OF Inl] obtain c e' where "(c, Some e') \<in> set evs2" by blast
        ultimately show ?thesis using c1 c2 f1 f2 by auto
      next
        case vs: (Inr vs)
        obtain r3 st3 where ie: "initialize_engines C vs st2 = (r3, st3)"
          by (cases "initialize_engines C vs st2")
        from initialize_engines_raises [OF ie] obtain evs3 where
          c3: "calls st3 = calls st2 @ evs3" and f3: "fs st3 = fs st2" and
          e3: "\<And>e. r3 = Inl e \<Longrightarrow> \<exists>c e'. (c, Some e') \<in> set evs3"
          by blast
        from Inr False inv cu vs ie assms have st': "st' = st3" and
          r: "(\<exists>e. r3 = Inl e) \<or> r = Inr (upload_response (filename upl) (length chunks))"
          by (auto simp: process_upload_def split: sum.splits)
        from r show ?thesis
        proof
          assume "\<exists>e. r3 = Inl e"
          with e3 obtain c e' where "(c, Some e') \<in> set evs3" by blast
          with st' c1 c2 c3 f1 f2 f3 show ?thesis by auto
        next
          assume "r = Inr (upload_response (filename upl) (length chunks))"
          with st' c1 c2 c3 f1 f2 f3 show ?thesis by auto
        qed
      qed
    qed
  qed
qed

lemma process_upload_fs:
  assumes "process_upload C upl p st = (r, st')"
  shows "fs st' = fs st"
  using process_upload_steps [OF assms] by blast




lemma loaded_wf: "wf_filesys (fs loaded_state)"
  by code_simp

lemma loaded_reset: "reset_system loaded_state = (Inr reset_response, cleared_state)"
  by code_simp

lemma indexed_wf: "wf_filesys (fs indexed_state)"
  by code_simp

lemma indexed_reset:
  "reset_system indexed_state = (Inr reset_response, cleared_state\<lparr>fs := emptied_fs\<rparr>)"
  by code_simp

section \<open>The file system stays well formed\<close>

text \<open>
  The paths of the table are canonical: every component is a name. No request changes that:
  a file is created under the last component of its path string, below a directory that
  the table holds, and removing entries keeps the others as they are. The statements
  below that speak of the content of the upload directory are made for such a table.
\<close>

lemma split_sep_nonempty: "split_sep s \<noteq> []"
  by (induction s) (auto split: list.splits)

lemma split_sep_chars:
  "x \<in> set (split_sep s) \<Longrightarrow> set x \<subseteq> set s \<and> CHR ''/'' \<notin> set x"
  by (induction s arbitrary: x) (fastforce split: if_splits list.splits)+

lemma last_split_sep_empty:
  "last (split_sep s) = [] \<Longrightarrow> s = [] \<or> last s = CHR ''/''"
  using split_sep_nonempty
  by (induction s) (auto split: if_splits list.splits)

lemma last_split_sep_valid:
  assumes "s \<noteq> []" and "last s \<noteq> CHR ''/''" and "CHR 0x00 \<notin> set s"
    and "last (split_sep s) \<noteq> ''.''" and "last (split_sep s) \<noteq> ''..''"
  shows "valid_name (last (split_sep s))"
proof -
  have "last (split_sep s) \<in> set (split_sep s)"
    using split_sep_nonempty by simp
  from split_sep_chars [OF this] assms last_split_sep_empty [of s] show ?thesis
    by (auto simp: valid_name_def)
qed

lemma walk_valid:
  assumes "wf_filesys fsys" and "list_all valid_name cur" and "walk fsys cur cs = Inr d"
  shows "list_all valid_name d"
  using assms(2,3)
proof (induction cs arbitrary: cur)
  case Nil
  then show ?case by simp
next
  case (Cons c cs)
  show ?case
  proof (cases "c = [] \<or> c = ''.''")
    case True
    with Cons show ?thesis by simp
  next
    case False
    show ?thesis
    proof (cases "c = ''..''")
      case True
      from Cons.prems(1) have "list_all valid_name (butlast cur)"
        by (auto simp: list_all_iff dest: in_set_butlastD)
      with Cons True show ?thesis by simp
    next
      case n: False
      with False Cons.prems(2) have l: "lookup fsys (cur @ [c]) = Some Dir"
        and w: "walk fsys (cur @ [c]) cs = Inr d"
        by (auto split: option.splits node.splits)
      from l have "(cur @ [c], Dir) \<in> set (nodes fsys)"
        by (auto simp: lookup_def dest: map_of_SomeD)
      with assms(1) have "list_all valid_name (cur @ [c])"
        by (auto simp: wf_filesys_def list_all_iff)
      from Cons.IH [OF this w] show ?thesis .
    qed
  qed
qed

lemma resolve_parent_valid:
  assumes "wf_filesys fsys" and "resolve_parent fsys s = Inr d"
  shows "list_all valid_name d"
proof -
  have "list_all valid_name (if hd s = CHR ''/'' then [] else cwd fsys)"
    using assms(1) by (simp add: wf_filesys_def)
  with assms walk_valid show ?thesis
    by (auto simp: resolve_parent_def split: if_splits)
qed

lemma open_wb_wf:
  assumes "wf_filesys fsys" and "open_wb fsys s c = Inr fs1"
  shows "wf_filesys fs1"
proof -
  from assms(2) obtain d where
    s: "CHR 0x00 \<notin> set s" "s \<noteq> []" "last s \<noteq> CHR ''/''" and
    d: "resolve_parent fsys s = Inr d" and
    f: "last (split_sep s) \<noteq> ''.''" "last (split_sep s) \<noteq> ''..''" and
    fs1: "fs1 = fsys\<lparr>nodes := (d @ [last (split_sep s)], File c) #
           filter (\<lambda>kv. fst kv \<noteq> d @ [last (split_sep s)]) (nodes fsys)\<rparr>"
    by (auto simp: open_wb_def Let_def split: if_splits sum.splits option.splits node.splits)
  from last_split_sep_valid [OF s(2,3,1) f] resolve_parent_valid [OF assms(1) d] assms(1)
  show ?thesis
    by (auto simp: fs1 wf_filesys_def list_all_iff)
qed

lemma os_remove_wf:
  assumes "wf_filesys fsys" and "os_remove fsys s = Inr fs1"
  shows "wf_filesys fs1"
  using assms
  by (auto simp: os_remove_def wf_filesys_def list_all_iff
      split: if_splits sum.splits prod.splits node.splits)

lemma shutil_rmtree_wf:
  assumes "wf_filesys fsys" and "shutil_rmtree fsys s = Inr fs1"
  shows "wf_filesys fs1"
  using assms
  by (auto simp: shutil_rmtree_def wf_filesys_def list_all_iff
      split: if_splits sum.splits prod.splits node.splits)

lemma clear_uploads_wf:
  assumes "wf_filesys fsys" and "clear_uploads names fsys = (r, fs1)"
  shows "wf_filesys fs1"
  using assms
proof (induction names arbitrary: fsys)
  case Nil
  then show ?case by simp
next
  case (Cons n names)
  show ?case
  proof (cases "os_path_isfile fsys (os_path_join UPLOAD_DIR n)")
    case False
    with Cons show ?thesis by (simp add: Let_def)
  next
    case True
    show ?thesis
    proof (cases "os_remove fsys (os_path_join UPLOAD_DIR n)")
      case (Inl e)
      with True Cons.prems show ?thesis by (simp add: Let_def)
    next
      case (Inr fs2)
      with True Cons.prems have "clear_uploads names fs2 = (r, fs1)" by (simp add: Let_def)
      from Cons.IH [OF os_remove_wf [OF Cons.prems(1) Inr] this] show ?thesis .
    qed
  qed
qed

lemma reset_system_wf:
  assumes "wf_filesys (fs st)" and "reset_system st = (r, st')"
  shows "wf_filesys (fs st')"
proof -
  from assms(2) obtain r0 where tr: "reset_try st = (r0, st')"
    by (auto simp: reset_system_def split: prod.splits sum.splits)
  show ?thesis
  proof (cases "os_listdir (fs st) UPLOAD_DIR")
    case (Inl e)
    with tr assms(1) show ?thesis by (simp add: reset_try_def)
  next
    case (Inr names)
    obtain r1 fs1 where cu: "clear_uploads names (fs st) = (r1, fs1)"
      by (cases "clear_uploads names (fs st)")
    note w1 = clear_uploads_wf [OF assms(1) cu]
    show ?thesis
    proof (cases r1)
      case (Inl e)
      with Inr cu tr w1 show ?thesis by (auto simp: reset_try_def)
    next
      case r: (Inr u)
      show ?thesis
      proof (cases "clear_vector_store fs1")
        case (Inl e)
        with Inr cu r tr w1 show ?thesis by (auto simp: reset_try_def)
      next
        case v: (Inr fs2)
        then have "wf_filesys fs2"
          using w1 shutil_rmtree_wf [of fs1]
          by (auto simp: clear_vector_store_def Let_def split: if_splits)
        with Inr cu r v tr show ?thesis by (auto simp: reset_try_def)
      qed
    qed
  qed
qed

lemma upload_document_wf:
  assumes "wf_filesys (fs st)" and "upload_document C upl st = (r, st')"
  shows "wf_filesys (fs st')"
proof -
  from assms(2) obtain r0 where tr: "upload_try C upl st = (r0, st')"
    by (auto simp: upload_document_def split: prod.splits sum.splits exn.splits)
  show ?thesis
  proof (cases "file_extension upl \<in> set [''.pdf'', ''.txt'']")
    case False
    with tr assms(1) show ?thesis by (auto simp: upload_try_def)
  next
    case True
    show ?thesis
    proof (cases "open_wb (fs st) (os_path_join UPLOAD_DIR (filename upl)) (content upl)")
      case (Inl e)
      with True tr assms(1) show ?thesis by (auto simp: upload_try_def Let_def)
    next
      case (Inr fs1)
      with True tr have "process_upload C upl (os_path_join UPLOAD_DIR (filename upl))
          (st\<lparr>fs := fs1\<rparr>) = (r0, st')"
        by (auto simp: upload_try_def Let_def)
      from process_upload_fs [OF this] open_wb_wf [OF assms(1) Inr] show ?thesis by simp
    qed
  qed
qed

lemma query_fs:
  "ask_question C q st = (r, st') \<Longrightarrow> fs st' = fs st"
  "summarize C s st = (r, st') \<Longrightarrow> fs st' = fs st"
  "get_definitions C t st = (r, st') \<Longrightarrow> fs st' = fs st"
  "generate_quiz C z st = (r, st') \<Longrightarrow> fs st' = fs st"
  "grade_quiz C g st = (r, st') \<Longrightarrow> fs st' = fs st"
  "root st = (r, st') \<Longrightarrow> fs st' = fs st"
  "list_documents st = (r, st') \<Longrightarrow> fs st' = fs st"
  by (auto simp: ask_question_def summarize_def get_definitions_def generate_quiz_def
      quiz_try_def grade_quiz_def root_def list_documents_def
      split: option.splits prod.splits sum.splits exn.splits elim!: invokeE)

lemma route_wf:
  assumes "wf_filesys (fs st)" and "route C req st = (r, st')"
  shows "wf_filesys (fs st')"
proof (cases req)
  case GetRoot
  with assms query_fs(6) [of st r st'] show ?thesis by simp
next
  case (PostUpload upl)
  with assms show ?thesis by (auto intro: upload_document_wf)
next
  case (PostAsk q)
  with assms query_fs(1) [of C q st r st'] show ?thesis by simp
next
  case (PostSummarize q)
  with assms query_fs(2) [of C q st r st'] show ?thesis by simp
next
  case (PostDefinitions t)
  with assms query_fs(3) [of C t st r st'] show ?thesis by simp
next
  case (PostQuizGenerate q)
  with assms query_fs(4) [of C q st r st'] show ?thesis by simp
next
  case (PostQuizGrade q)
  with assms query_fs(5) [of C q st r st'] show ?thesis by simp
next
  case GetDocuments
  with assms query_fs(7) [of st r st'] show ?thesis by simp
next
  case DeleteReset
  with assms show ?thesis by (auto intro: reset_system_wf)
qed

section \<open>Reset\<close>

text \<open>
  Claim C3, as amended. After a successful \<^verbatim>\<open>/reset\<close>, from any state whose file system is
  well formed, the upload directory holds no regular file (\<^verbatim>\<open>/documents\<close> lists nothing), the
  directory of the persisted index is gone, and the three session globals are \<^verbatim>\<open>None\<close>.
  Entries of the upload directory that are not regular files stay.
\<close>

theorem reset_clears_files_and_session:
  assumes "wf_filesys (fs st)" and "reset_system st = (Inr r, st')"
  shows "uploaded_files (fs st') = Inr [] \<and>
     fst (list_documents st') = Inr (PDict [(''documents'', PList []), (''count'', PInt 0)]) \<and>
     \<not> os_path_exists (fs st') (os_path_join ''data/vector_store'' VECTOR_STORE_NAME) \<and>
     vector_store st' = None \<and> rag_system st' = None \<and> quiz_generator st' = None"
proof -
  from assms(2) have "reset_try st = (Inr r, st')"
    by (auto simp: reset_system_def split: prod.splits sum.splits)
  from reset_try_success [OF assms(1) this] show ?thesis
    by (simp add: list_documents_def)
qed

theorem reset_clears_files_and_session_witness:
  "wf_filesys (fs indexed_state) \<and>
   uploaded_files (fs indexed_state) = Inr [''notes.txt''] \<and>
   os_path_exists (fs indexed_state) ''data/vector_store/study_materials'' \<and>
   vector_store indexed_state = Some 10 \<and>
   reset_system indexed_state = (Inr reset_response, cleared_state\<lparr>fs := emptied_fs\<rparr>) \<and>
   uploaded_files emptied_fs = Inr [] \<and>
   \<not> os_path_exists emptied_fs ''data/vector_store/study_materials'' \<and>
   vector_store (cleared_state\<lparr>fs := emptied_fs\<rparr>) = None \<and>
   rag_system (cleared_state\<lparr>fs := emptied_fs\<rparr>) = None \<and>
   quiz_generator (cleared_state\<lparr>fs := emptied_fs\<rparr>) = None"
proof -
  have before: "uploaded_files (fs indexed_state) = Inr [''notes.txt'']"
    "os_path_exists (fs indexed_state) ''data/vector_store/study_materials''"
    "vector_store indexed_state = Some 10"
    by code_simp+
  from reset_clears_files_and_session [OF indexed_wf indexed_reset]
  have "uploaded_files emptied_fs = Inr [] \<and>
     \<not> os_path_exists emptied_fs ''data/vector_store/study_materials'' \<and>
     vector_store (cleared_state\<lparr>fs := emptied_fs\<rparr>) = None \<and>
     rag_system (cleared_state\<lparr>fs := emptied_fs\<rparr>) = None \<and>
     quiz_generator (cleared_state\<lparr>fs := emptied_fs\<rparr>) = None"
    by (simp add: os_path_join_def VECTOR_STORE_NAME_def)
  with indexed_wf indexed_reset before show ?thesis by blast
qed

text \<open>
  The claim as it is written has the upload directory without entries. The loop of
  \<^verbatim>\<open>reset_system\<close> removes only what \<^verbatim>\<open>os.path.isfile\<close> accepts: a subdirectory of the upload
  directory is still there after a successful reset.
\<close>

theorem reset_keeps_subdirectories:
  "fst (reset_system archive_state) = Inr reset_response \<and>
   os_listdir (fs (snd (reset_system archive_state))) UPLOAD_DIR = Inr [''archive'']"
  by code_simp

section \<open>Uploading a stored name again\<close>




section \<open>Listing after an upload\<close>

text \<open>
  After a successful upload whose file name is a plain name, \<^verbatim>\<open>/documents\<close> lists that
  name.
\<close>

lemma plain_upload_is_listed:
  assumes "valid_name (filename upl)" and "upload_document C upl st = (Inr r, st')"
  shows "\<exists>files. uploaded_files (fs st') = Inr files \<and> filename upl \<in> set files"
proof -
  from assms(2) obtain fs1 where
    sv: "open_wb (fs st) (os_path_join UPLOAD_DIR (filename upl)) (content upl) = Inr fs1" and
    pu: "process_upload C upl (os_path_join UPLOAD_DIR (filename upl)) (st\<lparr>fs := fs1\<rparr>) = (Inr r, st')"
    by (auto elim: upload_document_success)
  from process_upload_fs [OF pu] have "fs st' = fs1" by simp
  with saved_entry(2) [OF assms(1) sv] show ?thesis by simp
qed

text \<open>
  Claim C4. The file name of the request goes into \<^verbatim>\<open>os.path.join(UPLOAD_DIR, file.filename)\<close>
  as it is. With the name \<^verbatim>\<open>../outside.txt\<close> the upload succeeds, the file is written to
  \<^verbatim>\<open>data/outside.txt\<close>, outside the upload directory, and \<^verbatim>\<open>/documents\<close> does not list it.
\<close>

theorem upload_outside_upload_dir:
  "fst (upload_document sample_collaborators outside_file sample_state) =
     Inr (upload_response ''../outside.txt'' 2) \<and>
   fst (list_documents (snd (upload_document sample_collaborators outside_file sample_state))) =
     Inr (PDict [(''documents'', PList [PStr ''notes.txt'']), (''count'', PInt 1)]) \<and>
   read_file (fs (snd (upload_document sample_collaborators outside_file sample_state)))
     ''data/outside.txt'' = Some ''new''"
  by code_simp

end
